theory Spec2Isabelle
  imports Complex_Main "HOL-Library.AList"
begin

section \<open>JavaScript strings\<close>

text \<open>
  A JavaScript string is the list of its code units. Code units are modelled by
  \<open>char\<close>, so the strings of the model are those whose code units are below 256.
\<close>

fun startsWith :: "string \<Rightarrow> string \<Rightarrow> bool" where
  "startsWith s [] = True"
| "startsWith [] (p # ps) = False"
| "startsWith (c # cs) (p # ps) = (c = p \<and> startsWith cs ps)"

text \<open>\<open>s.indexOf(pat)\<close>: the offset of the first occurrence, \<open>None\<close> for -1.\<close>

fun indexOf :: "string \<Rightarrow> string \<Rightarrow> nat option" where
  "indexOf [] pat = (if pat = [] then Some 0 else None)"
| "indexOf (c # cs) pat =
     (if startsWith (c # cs) pat then Some 0 else map_option Suc (indexOf cs pat))"

definition js_includes :: "string \<Rightarrow> string \<Rightarrow> bool" where
  "js_includes s pat = (indexOf s pat \<noteq> None)"

text \<open>White space and line terminators that \<open>trim\<close> removes, among the code units below 256.\<close>

definition isWhiteSpace :: "char \<Rightarrow> bool" where
  "isWhiteSpace c =
     (c = CHR 0x09 \<or> c = CHR 0x0A \<or> c = CHR 0x0B \<or> c = CHR 0x0C \<or> c = CHR 0x0D
      \<or> c = CHR 0x20 \<or> c = CHR 0xA0)"

definition trim :: "string \<Rightarrow> string" where
  "trim s = rev (dropWhile isWhiteSpace (rev (dropWhile isWhiteSpace s)))"

text \<open>\<open>s.split(sep)\<close> for a separator of one code unit, and \<open>parts.join(sep)\<close>.\<close>

fun split_chr :: "char \<Rightarrow> string \<Rightarrow> string list" where
  "split_chr sep [] = [[]]"
| "split_chr sep (c # cs) =
     (if c = sep then [] # split_chr sep cs
      else (case split_chr sep cs of [] \<Rightarrow> [[c]] | p # ps \<Rightarrow> (c # p) # ps))"

fun join :: "string \<Rightarrow> string list \<Rightarrow> string" where
  "join sep [] = []"
| "join sep [p] = p"
| "join sep (p # q # ps) = p @ sep @ join sep (q # ps)"

text \<open>Decimal digits of a natural number, as \<open>String(n)\<close> prints an index or a count.\<close>

fun show_nat :: "nat \<Rightarrow> string" where
  "show_nat n =
     (if n < 10 then [''0123456789'' ! n]
      else show_nat (n div 10) @ [''0123456789'' ! (n mod 10)])"

declare show_nat.simps [simp del]

definition isDigit :: "char \<Rightarrow> bool" where
  "isDigit c = (c \<in> set ''0123456789'')"


section \<open>JavaScript numbers\<close>

text \<open>
  A JavaScript number is a rational or one of the three special values. The sum of two
  finite numbers is their exact sum: the rounding of the 64-bit format is not modelled (the
  sum of two integers below \<open>2^53\<close> is exact in that format too), and the negative zero is
  zero.
\<close>

datatype number = Finite rat | PosInfinity | NegInfinity | NaN

text \<open>\<open>x + y\<close>, \<open>x < y\<close> and \<open>x >= y\<close> on numbers; a comparison with \<open>NaN\<close> is false.\<close>

fun num_add :: "number \<Rightarrow> number \<Rightarrow> number" where
  "num_add (Finite a) (Finite b) = Finite (a + b)"
| "num_add NaN y = NaN"
| "num_add x NaN = NaN"
| "num_add PosInfinity NegInfinity = NaN"
| "num_add NegInfinity PosInfinity = NaN"
| "num_add PosInfinity y = PosInfinity"
| "num_add x PosInfinity = PosInfinity"
| "num_add NegInfinity y = NegInfinity"
| "num_add x NegInfinity = NegInfinity"

fun num_less :: "number \<Rightarrow> number \<Rightarrow> bool" where
  "num_less (Finite a) (Finite b) = (a < b)"
| "num_less NaN y = False"
| "num_less x NaN = False"
| "num_less PosInfinity y = False"
| "num_less x NegInfinity = False"
| "num_less x PosInfinity = True"
| "num_less NegInfinity y = True"

definition num_ge :: "number \<Rightarrow> number \<Rightarrow> bool" where
  "num_ge x y = (x \<noteq> NaN \<and> y \<noteq> NaN \<and> \<not> num_less x y)"

text \<open>
  \<open>s.slice(a, b)\<close>. An argument is cut to an integer, towards zero; a negative one counts
  from the end of the string; the result is empty when the end is not after the start.
\<close>

fun sliceIndex :: "nat \<Rightarrow> number \<Rightarrow> nat" where
  "sliceIndex len (Finite q) =
     (let i = (if q < 0 then \<lceil>q\<rceil> else \<lfloor>q\<rfloor>)
      in if i < 0 then nat (max (int len + i) 0) else nat (min i (int len)))"
| "sliceIndex len PosInfinity = len"
| "sliceIndex len NegInfinity = 0"
| "sliceIndex len NaN = 0"

definition js_slice :: "string \<Rightarrow> number \<Rightarrow> number \<Rightarrow> string" where
  "js_slice s a b =
     (let from = sliceIndex (length s) a;
          to = sliceIndex (length s) b
      in take (to - from) (drop from s))"

text \<open>
  A reference instance of \<open>Number.prototype.toString\<close>, for concrete runs: the decimal
  digits of an integer; a number with a fraction is printed with its decimal digits, at
  most 20 after the point (JavaScript prints the shortest digits that identify the number,
  and an exponent from \<open>1e21\<close> on and below \<open>1e-6\<close>).
\<close>

fun fraction_digits :: "nat \<Rightarrow> rat \<Rightarrow> string" where
  "fraction_digits 0 r = []"
| "fraction_digits (Suc fuel) r =
     (if r = 0 then []
      else (''0123456789'' ! nat \<lfloor>10 * r\<rfloor>) # fraction_digits fuel (10 * r - of_int \<lfloor>10 * r\<rfloor>))"

definition show_rat :: "rat \<Rightarrow> string" where
  "show_rat q =
     (if q < 0 then ''-'' else [])
       @ show_nat (nat \<lfloor>\<bar>q\<bar>\<rfloor>)
       @ (if \<bar>q\<bar> = of_int \<lfloor>\<bar>q\<bar>\<rfloor> then []
          else CHR ''.'' # fraction_digits 20 (\<bar>q\<bar> - of_int \<lfloor>\<bar>q\<bar>\<rfloor>))"

fun show_number :: "number \<Rightarrow> string" where
  "show_number (Finite q) = show_rat q"
| "show_number PosInfinity = ''Infinity''"
| "show_number NegInfinity = ''-Infinity''"
| "show_number NaN = ''NaN''"


section \<open>JSON values\<close>

text \<open>
  The values \<open>JSON.parse\<close> returns. An object keeps its properties in insertion order.
\<close>

datatype json =
    JNull
  | JBool bool
  | JNumber number
  | JString string
  | JArray "json list"
  | JObject "(string \<times> json) list"

text \<open>\<open>v.key\<close> on a value that is not null: \<open>None\<close> is \<open>undefined\<close>.\<close>

fun getprop :: "json \<Rightarrow> string \<Rightarrow> json option" where
  "getprop (JObject kvs) key = map_of kvs key"
| "getprop v key = None"

text \<open>Truthiness of a value (\<open>!!v\<close>), and of a property that may be undefined.\<close>

fun truthy :: "json \<Rightarrow> bool" where
  "truthy JNull = False"
| "truthy (JBool b) = b"
| "truthy (JNumber n) = (n \<noteq> Finite 0 \<and> n \<noteq> NaN)"
| "truthy (JString s) = (s \<noteq> [])"
| "truthy (JArray vs) = True"
| "truthy (JObject kvs) = True"

fun truthy_opt :: "json option \<Rightarrow> bool" where
  "truthy_opt None = False"
| "truthy_opt (Some v) = truthy v"

subsection \<open>A reference JSON parser\<close>

text \<open>
  \<open>JSON.parse\<close> is a built-in of the platform; the functions of the controller take it
  from the environment. \<open>json_parse\<close> below is a reference instance for concrete runs: a
  recursive-descent parser of the JSON grammar with integer number literals (a literal
  with a fraction or an exponent, and a \<open>\u\<close> escape, are outside this instance and
  rejected). The fuel bounds the nesting depth; the length of the input is enough.
\<close>

datatype error = Error string | TypeError string | SyntaxError string

fun err_message :: "error \<Rightarrow> string" where
  "err_message (Error m) = m"
| "err_message (TypeError m) = m"
| "err_message (SyntaxError m) = m"

definition json_ws :: "char \<Rightarrow> bool" where
  "json_ws c = (c = CHR 0x20 \<or> c = CHR 0x09 \<or> c = CHR 0x0A \<or> c = CHR 0x0D)"

definition skip_ws :: "string \<Rightarrow> string" where
  "skip_ws s = dropWhile json_ws s"

definition unescape :: "char \<Rightarrow> char option" where
  "unescape e =
     (if e = CHR 0x22 then Some (CHR 0x22)
      else if e = CHR 0x5C then Some (CHR 0x5C)
      else if e = CHR ''/'' then Some (CHR ''/'')
      else if e = CHR ''b'' then Some (CHR 0x08)
      else if e = CHR ''f'' then Some (CHR 0x0C)
      else if e = CHR ''n'' then Some (CHR 0x0A)
      else if e = CHR ''r'' then Some (CHR 0x0D)
      else if e = CHR ''t'' then Some (CHR 0x09)
      else None)"

text \<open>The characters of a string literal after its opening quote.\<close>

fun parse_chars :: "string \<Rightarrow> string \<Rightarrow> (string \<times> string) option" where
  "parse_chars acc [] = None"
| "parse_chars acc [c] = (if c = CHR 0x22 then Some (rev acc, []) else None)"
| "parse_chars acc (c # d # cs) =
     (if c = CHR 0x22 then Some (rev acc, d # cs)
      else if c = CHR 0x5C then
        (case unescape d of None \<Rightarrow> None | Some u \<Rightarrow> parse_chars (u # acc) cs)
      else if (of_char c :: nat) < 32 then None
      else parse_chars (c # acc) (d # cs))"

definition digits_val :: "string \<Rightarrow> nat" where
  "digits_val ds = foldl (\<lambda>n d. 10 * n + (of_char d - 48)) 0 ds"

definition parse_nat_lit :: "string \<Rightarrow> (nat \<times> string) option" where
  "parse_nat_lit s =
     (let ds = takeWhile isDigit s; r = dropWhile isDigit s
      in if ds = [] then None
         else if hd ds = CHR ''0'' \<and> length ds > 1 then None
         else if r \<noteq> [] \<and> (hd r = CHR ''.'' \<or> hd r = CHR ''e'' \<or> hd r = CHR ''E'') then None
         else Some (digits_val ds, r))"

definition parse_number :: "string \<Rightarrow> (json \<times> string) option" where
  "parse_number s =
     (case s of
        [] \<Rightarrow> None
      | c # cs \<Rightarrow>
          if c = CHR ''-'' then map_option (\<lambda>(n, r). (JNumber (Finite (- of_nat n)), r)) (parse_nat_lit cs)
          else map_option (\<lambda>(n, r). (JNumber (Finite (of_nat n)), r)) (parse_nat_lit s))"

fun parse_value :: "nat \<Rightarrow> string \<Rightarrow> (json \<times> string) option"
  and parse_elements :: "nat \<Rightarrow> json list \<Rightarrow> string \<Rightarrow> (json list \<times> string) option"
  and parse_members ::
    "nat \<Rightarrow> (string \<times> json) list \<Rightarrow> string \<Rightarrow> ((string \<times> json) list \<times> string) option"
where
  "parse_value 0 s = None"
| "parse_value (Suc n) s =
     (case skip_ws s of
        [] \<Rightarrow> None
      | c # cs \<Rightarrow>
          if c = CHR ''{'' then
            (if startsWith (skip_ws cs) ''}'' then Some (JObject [], tl (skip_ws cs))
             else map_option (\<lambda>(kvs, r). (JObject kvs, r)) (parse_members n [] cs))
          else if c = CHR ''['' then
            (if startsWith (skip_ws cs) '']'' then Some (JArray [], tl (skip_ws cs))
             else map_option (\<lambda>(vs, r). (JArray vs, r)) (parse_elements n [] cs))
          else if c = CHR 0x22 then map_option (\<lambda>(str, r). (JString str, r)) (parse_chars [] cs)
          else if startsWith (c # cs) ''true'' then Some (JBool True, drop 4 (c # cs))
          else if startsWith (c # cs) ''false'' then Some (JBool False, drop 5 (c # cs))
          else if startsWith (c # cs) ''null'' then Some (JNull, drop 4 (c # cs))
          else parse_number (c # cs))"
| "parse_elements 0 acc s = None"
| "parse_elements (Suc n) acc s =
     (case parse_value n s of
        None \<Rightarrow> None
      | Some (v, r) \<Rightarrow>
          (case skip_ws r of
             [] \<Rightarrow> None
           | c # cs \<Rightarrow>
               if c = CHR '','' then parse_elements n (acc @ [v]) cs
               else if c = CHR '']'' then Some (acc @ [v], cs)
               else None))"
| "parse_members 0 acc s = None"
| "parse_members (Suc n) acc s =
     (case skip_ws s of
        [] \<Rightarrow> None
      | q # s1 \<Rightarrow>
          if q \<noteq> CHR 0x22 then None
          else
            (case parse_chars [] s1 of
               None \<Rightarrow> None
             | Some (key, s2) \<Rightarrow>
                 (case skip_ws s2 of
                    [] \<Rightarrow> None
                  | colon # s3 \<Rightarrow>
                      if colon \<noteq> CHR '':'' then None
                      else
                        (case parse_value n s3 of
                           None \<Rightarrow> None
                         | Some (v, s4) \<Rightarrow>
                             (case skip_ws s4 of
                                [] \<Rightarrow> None
                              | c # cs \<Rightarrow>
                                  if c = CHR '','' then parse_members n (AList.update key v acc) cs
                                  else if c = CHR ''}'' then Some (AList.update key v acc, cs)
                                  else None)))))"

definition json_parse :: "string \<Rightarrow> error + json" where
  "json_parse s =
     (case parse_value (Suc (length s)) s of
        None \<Rightarrow> Inl (SyntaxError ''Unexpected token in JSON'')
      | Some (v, r) \<Rightarrow>
          if skip_ws r = [] then Inr v else Inl (SyntaxError ''Unexpected token in JSON''))"

subsection \<open>Reference instances of JSON.stringify\<close>

text \<open>A number that is not finite is printed as \<open>null\<close>.\<close>

fun json_number :: "number \<Rightarrow> string" where
  "json_number (Finite q) = show_rat q"
| "json_number other = ''null''"

definition hexDigit :: "nat \<Rightarrow> char" where
  "hexDigit d = ''0123456789abcdef'' ! d"

definition escape_char :: "char \<Rightarrow> string" where
  \<open>escape_char c =
     (if c = CHR 0x22 then [CHR 0x5C, CHR 0x22]
      else if c = CHR 0x5C then [CHR 0x5C, CHR 0x5C]
      else if c = CHR 0x08 then [CHR 0x5C, CHR ''b'']
      else if c = CHR 0x0C then [CHR 0x5C, CHR ''f'']
      else if c = CHR 0x0A then [CHR 0x5C, CHR ''n'']
      else if c = CHR 0x0D then [CHR 0x5C, CHR ''r'']
      else if c = CHR 0x09 then [CHR 0x5C, CHR ''t'']
      else if (of_char c :: nat) < 32
        then [CHR 0x5C, CHR ''u'', CHR ''0'', CHR ''0'',
              hexDigit (of_char c div 16), hexDigit (of_char c mod 16)]
      else [c])\<close>

definition quote :: "string \<Rightarrow> string" where
  "quote s = CHR 0x22 # concat (map escape_char s) @ [CHR 0x22]"

fun json_stringify :: "json \<Rightarrow> string" where
  "json_stringify JNull = ''null''"
| "json_stringify (JBool b) = (if b then ''true'' else ''false'')"
| "json_stringify (JNumber n) = json_number n"
| "json_stringify (JString s) = quote s"
| "json_stringify (JArray vs) = ''['' @ join '','' (map json_stringify vs) @ '']''"
| "json_stringify (JObject kvs) =
     ''{'' @ join '','' (map (\<lambda>kv. quote (fst kv) @ '':'' @ json_stringify (snd kv)) kvs) @ ''}''"

text \<open>\<open>JSON.stringify(v, null, 2)\<close>; \<open>ind\<close> is the indentation of the enclosing line.\<close>

fun json_pretty :: "string \<Rightarrow> json \<Rightarrow> string" where
  "json_pretty ind JNull = ''null''"
| "json_pretty ind (JBool b) = (if b then ''true'' else ''false'')"
| "json_pretty ind (JNumber n) = json_number n"
| "json_pretty ind (JString s) = quote s"
| "json_pretty ind (JArray vs) =
     (if vs = [] then ''[]''
      else ''['' @ [CHR 0x0A]
        @ join ('','' @ [CHR 0x0A]) (map (\<lambda>v. ind @ ''  '' @ json_pretty (ind @ ''  '') v) vs)
        @ [CHR 0x0A] @ ind @ '']'')"
| "json_pretty ind (JObject kvs) =
     (if kvs = [] then ''{}''
      else ''{'' @ [CHR 0x0A]
        @ join ('','' @ [CHR 0x0A])
            (map (\<lambda>kv. ind @ ''  '' @ quote (fst kv) @ '': '' @ json_pretty (ind @ ''  '') (snd kv)) kvs)
        @ [CHR 0x0A] @ ind @ ''}'')"



section \<open>Data model of the controller\<close>

datatype role = System | User | Assistant

datatype turn = Turn (role: role) (content: string)

record settings_t =
  streaming :: bool
  enableCoT :: bool
  showThinking :: bool

text \<open>An object spread over the settings: the keys it carries replace the old values.\<close>

record settings_patch =
  set_streaming :: "bool option"
  set_enableCoT :: "bool option"
  set_showThinking :: "bool option"

definition merge_settings :: "settings_t \<Rightarrow> settings_patch \<Rightarrow> settings_t" where
  "merge_settings s p =
     \<lparr> streaming = (case set_streaming p of None \<Rightarrow> streaming s | Some b \<Rightarrow> b),
       enableCoT = (case set_enableCoT p of None \<Rightarrow> enableCoT s | Some b \<Rightarrow> b),
       showThinking = (case set_showThinking p of None \<Rightarrow> showThinking s | Some b \<Rightarrow> b) \<rparr>"

record searchResult =
  sr_title :: string
  sr_url :: string
  sr_snippet :: string

record toolCallEntry =
  entry_tool :: json
  entry_args :: json
  entry_timestamp :: string

text \<open>
  What the controller asks of the UI layer, in the order it asks. The handle of the message
  that \<open>createEmptyAIMessage\<close> returns is left out: an update goes to the message created
  last. Writing to the console is not modelled.
\<close>

datatype ui_event =
    AddMessage string string
  | ShowSpinner string
  | HideSpinner
  | ShowStatus string
  | ClearStatus
  | AddSearchResult searchResult bool
  | AddReadResult string string bool
  | AddSummarizeButton
  | CreateEmptyAIMessage
  | UpdateMessageContent string
  | ClearUserInput
  | SetDisabled string bool
  | UpdateTokenDisplay nat
  | SetupEventHandlers

text \<open>
  The private state of the module (lines 10-25), with the trace of UI requests and a
  clock that counts the answers received from the outside world.
\<close>

record state =
  chatHistory :: "turn list"
  totalTokens :: nat
  settings :: settings_t
  isThinking :: bool
  lastThinkingContent :: string
  lastAnswerContent :: string
  readSnippets :: "string list"
  lastToolCall :: "string option"
  lastToolCallCount :: nat
  lastSearchResults :: "searchResult list"
  autoReadInProgress :: bool
  toolCallHistory :: "toolCallEntry list"
  highlightedResultIndices :: "int set"
  readCache :: "string \<rightharpoonup> string"
  ui :: "ui_event list"
  clock :: nat

definition MAX_TOOL_CALL_REPEAT :: nat where
  "MAX_TOOL_CALL_REPEAT = 3"

definition initialState :: state where
  "initialState =
     \<lparr> chatHistory = [], totalTokens = 0,
       settings = \<lparr> streaming = False, enableCoT = False, showThinking = True \<rparr>,
       isThinking = False, lastThinkingContent = [], lastAnswerContent = [],
       readSnippets = [], lastToolCall = None, lastToolCallCount = 0,
       lastSearchResults = [], autoReadInProgress = False, toolCallHistory = [],
       highlightedResultIndices = {}, readCache = Map.empty, ui = [], clock = 0 \<rparr>"

subsection \<open>The platform and the collaborators\<close>

text \<open>
  The answer of the chat-completion transport: \<open>result.error.message\<close>,
  \<open>result.usage.total_tokens\<close> (0 when absent) and
  \<open>result.choices[0].message.content\<close> (\<open>None\<close> when the path does not exist).
\<close>

record openai_result =
  oa_error :: "string option"
  oa_total_tokens :: nat
  oa_content :: "string option"

text \<open>
  The answer of a Gemini session: \<open>usageMetadata.totalTokenCount\<close> when it is a number,
  and the text of the first candidate as lines 609-616 assemble it (\<open>None\<close> when there is
  no candidate content).
\<close>

record gemini_result =
  gm_totalTokenCount :: "nat option"
  gm_text :: "string option"

text \<open>
  Every function of the outside world takes the clock, so that two calls with the same
  arguments may answer differently. A rejected promise is \<open>Inl\<close>. A streaming request
  answers with the texts its callback receives, then its final text; a web search with
  the results its callback receives, then its final list.
\<close>

record env =
  JSON_parse :: "string \<Rightarrow> error + json"
  JSON_stringify :: "json \<Rightarrow> string"
  JSON_stringify_pretty :: "json \<Rightarrow> string"
  Number_toString :: "number \<Rightarrow> string"
  now :: "nat \<Rightarrow> string"
  getUserInput :: "nat \<Rightarrow> string"
  selectedModel :: "nat \<Rightarrow> string"
  sendOpenAIRequest :: "nat \<Rightarrow> string \<Rightarrow> turn list \<Rightarrow> error + openai_result"
  streamOpenAIRequest :: "nat \<Rightarrow> string \<Rightarrow> turn list \<Rightarrow> string list \<times> (error + string)"
  streamGeminiRequest :: "nat \<Rightarrow> string \<Rightarrow> turn list \<Rightarrow> string list \<times> (error + string)"
  geminiSendMessage :: "nat \<Rightarrow> string \<Rightarrow> string \<Rightarrow> turn list \<Rightarrow> error + gemini_result"
  getTokenUsage :: "nat \<Rightarrow> string \<Rightarrow> turn list \<Rightarrow> error + nat"
  webSearch :: "nat \<Rightarrow> string \<Rightarrow> json \<Rightarrow> searchResult list \<times> (error + searchResult list)"
  readUrl :: "nat \<Rightarrow> string \<Rightarrow> error + string"
  instantAnswer :: "nat \<Rightarrow> string \<Rightarrow> error + json"

subsection \<open>Programs: state, exceptions, fuel\<close>

text \<open>
  An asynchronous function of the controller is a function from the state to an outcome and
  the state it leaves: \<open>Inr\<close> a value, \<open>Inl\<close> a thrown error. \<open>None\<close> means that the
  fuel of a recursive function ran out.
\<close>

type_synonym 'a prog = "state \<Rightarrow> ((error + 'a) \<times> state) option"

definition ret :: "'a \<Rightarrow> 'a prog" where
  "ret x st = Some (Inr x, st)"

definition throw :: "error \<Rightarrow> 'a prog" where
  "throw e st = Some (Inl e, st)"

definition outOfFuel :: "'a prog" where
  "outOfFuel st = None"

definition bindM :: "'a prog \<Rightarrow> ('a \<Rightarrow> 'b prog) \<Rightarrow> 'b prog" where
  "bindM m f st =
     (case m st of
        None \<Rightarrow> None
      | Some (Inl e, st') \<Rightarrow> Some (Inl e, st')
      | Some (Inr x, st') \<Rightarrow> f x st')"

definition thenM :: "'a prog \<Rightarrow> 'b prog \<Rightarrow> 'b prog" where
  "thenM m k = bindM m (\<lambda>_. k)"

text \<open>\<open>try { m } catch (err) { h err }\<close> and \<open>try { m } finally { f }\<close>.\<close>

definition tryCatch :: "'a prog \<Rightarrow> (error \<Rightarrow> 'a prog) \<Rightarrow> 'a prog" where
  "tryCatch m h st =
     (case m st of
        None \<Rightarrow> None
      | Some (Inl e, st') \<Rightarrow> h e st'
      | Some (Inr x, st') \<Rightarrow> Some (Inr x, st'))"

definition tryFinally :: "'a prog \<Rightarrow> unit prog \<Rightarrow> 'a prog" where
  "tryFinally m f st =
     (case m st of
        None \<Rightarrow> None
      | Some (r, st') \<Rightarrow>
          (case f st' of
             None \<Rightarrow> None
           | Some (Inl e, st'') \<Rightarrow> Some (Inl e, st'')
           | Some (Inr u, st'') \<Rightarrow> Some (r, st'')))"

definition getState :: "state prog" where
  "getState st = Some (Inr st, st)"

definition modify :: "(state \<Rightarrow> state) \<Rightarrow> unit prog" where
  "modify f st = Some (Inr (), f st)"

text \<open>A list of statements, run in order.\<close>

fun seqM :: "unit prog list \<Rightarrow> unit prog" where
  "seqM [] = ret ()"
| "seqM (m # ms) = thenM m (seqM ms)"

definition whenM :: "bool \<Rightarrow> unit prog \<Rightarrow> unit prog" where
  "whenM b m = (if b then m else ret ())"

text \<open>\<open>await f(...)\<close> on a function of the outside world: its answer at this clock.\<close>

definition await :: "(nat \<Rightarrow> error + 'a) \<Rightarrow> 'a prog" where
  "await f st = Some (f (clock st), st\<lparr>clock := Suc (clock st)\<rparr>)"

definition settle :: "error + 'a \<Rightarrow> 'a prog" where
  "settle outcome st = Some (outcome, st)"

definition uiDo :: "ui_event \<Rightarrow> unit prog" where
  "uiDo e = modify (\<lambda>st. st\<lparr>ui := ui st @ [e]\<rparr>)"

definition pushTurn :: "role \<Rightarrow> string \<Rightarrow> unit prog" where
  "pushTurn r c = modify (\<lambda>st. st\<lparr>chatHistory := chatHistory st @ [Turn r c]\<rparr>)"

text \<open>
  A synchronous function that touches no state is an outcome: \<open>Inr\<close> a value, \<open>Inl\<close> a
  thrown error. \<open>bindE\<close> runs one after the other, \<open>catchE\<close> is \<open>try\<close> with \<open>catch\<close>.
\<close>

definition bindE :: "error + 'a \<Rightarrow> ('a \<Rightarrow> error + 'b) \<Rightarrow> error + 'b" where
  "bindE m f = (case m of Inl e \<Rightarrow> Inl e | Inr x \<Rightarrow> f x)"

definition catchE :: "error + 'a \<Rightarrow> (error \<Rightarrow> error + 'a) \<Rightarrow> error + 'a" where
  "catchE m h = (case m of Inl e \<Rightarrow> h e | Inr x \<Rightarrow> Inr x)"

section \<open>Response classifier\<close>

text \<open>
  \<open>text.match(/\{[\s\S]*\}/)\<close>: the span from the first opening brace to the last closing
  brace after it, \<open>None\<close> when there is none.
\<close>

definition matchBraces :: "string \<Rightarrow> string option" where
  "matchBraces text =
     (let fromOpen = dropWhile (\<lambda>c. c \<noteq> CHR ''{'') text;
          span = rev (dropWhile (\<lambda>c. c \<noteq> CHR ''}'') (rev fromOpen))
      in if span = [] then None else Some span)"

text \<open>
  Reading an entry of the result of \<open>match\<close> (\<open>jsonMatch[0]\<close>, \<open>thinkingMatch[1]\<close>): the
  result is \<open>null\<close> when there is no match, and reading an entry of \<open>null\<close> throws.
\<close>

definition entryOf :: "string option \<Rightarrow> error + string" where
  "entryOf m =
     (case m of
        None \<Rightarrow> Inl (TypeError ''Cannot read properties of null'')
      | Some entry \<Rightarrow> Inr entry)"

text \<open>\<open>extractToolCall\<close> (lines 28-37); \<open>JNull\<close> is \<open>null\<close>.\<close>

definition extractToolCall :: "env \<Rightarrow> string \<Rightarrow> error + json" where
  "extractToolCall env text =
     (let jsonMatch = matchBraces text
      in if jsonMatch = None then Inr JNull
         else catchE (bindE (entryOf jsonMatch) (JSON_parse env)) (\<lambda>err. Inr JNull))"

text \<open>
  \<open>response.match(/Thinking:(.*?)(?=Answer:|$)/s)\<close> and
  \<open>response.match(/Answer:(.*?)$/s)\<close>: group 1 of the match, \<open>None\<close> when there is no match.
\<close>

definition thinkingMatch :: "string \<Rightarrow> string option" where
  "thinkingMatch response =
     (case indexOf response ''Thinking:'' of
        None \<Rightarrow> None
      | Some i \<Rightarrow>
          (let rest = drop (i + 9) response
           in case indexOf rest ''Answer:'' of
                None \<Rightarrow> Some rest
              | Some j \<Rightarrow> Some (take j rest)))"

definition answerMatch :: "string \<Rightarrow> string option" where
  "answerMatch response =
     (case indexOf response ''Answer:'' of
        None \<Rightarrow> None
      | Some i \<Rightarrow> Some (drop (i + 7) response))"

text \<open>\<open>s.replace(/^Thinking:/, '')\<close> and \<open>s.replace(/^.*?Thinking:/s, r)\<close>.\<close>

definition stripThinkingPrefix :: "string \<Rightarrow> string" where
  "stripThinkingPrefix s = (if startsWith s ''Thinking:'' then drop 9 s else s)"

definition replaceUpToThinking :: "string \<Rightarrow> string \<Rightarrow> string" where
  "replaceUpToThinking s r =
     (case indexOf s ''Thinking:'' of None \<Rightarrow> s | Some i \<Rightarrow> r @ drop (i + 9) s)"

record cot_result =
  thinking :: string
  answer :: string
  hasStructuredResponse :: bool
  partial :: "bool option"
  stage :: "string option"

text \<open>
  \<open>processCoTResponse\<close> (lines 208-258); it writes the last known content to the state.
\<close>

definition processCoTResponse :: "string \<Rightarrow> cot_result prog" where
  "processCoTResponse response =
     (let tmatch = thinkingMatch response;
          amatch = answerMatch response
      in if tmatch \<noteq> None \<and> amatch \<noteq> None then
           bindM (settle (entryOf tmatch)) (\<lambda>group1.
             bindM (settle (entryOf amatch)) (\<lambda>group2.
               thenM (modify (\<lambda>st. st\<lparr>lastThinkingContent := trim group1,
                                       lastAnswerContent := trim group2\<rparr>))
                 (ret \<lparr> thinking = trim group1, answer = trim group2,
                        hasStructuredResponse = True, partial = None, stage = None \<rparr>)))
         else if startsWith response ''Thinking:'' \<and> \<not> js_includes response ''Answer:'' then
           thenM (modify (\<lambda>st. st\<lparr>lastThinkingContent := trim (stripThinkingPrefix response)\<rparr>))
             (bindM getState (\<lambda>st.
                ret \<lparr> thinking = trim (stripThinkingPrefix response),
                      answer = lastAnswerContent st,
                      hasStructuredResponse = True, partial = Some True,
                      stage = Some ''thinking'' \<rparr>))
         else if js_includes response ''Thinking:'' \<and> tmatch = None then
           ret \<lparr> thinking = trim (stripThinkingPrefix (replaceUpToThinking response ''Thinking:'')),
                 answer = [], hasStructuredResponse = False, partial = Some True, stage = None \<rparr>
         else
           ret \<lparr> thinking = [], answer = response, hasStructuredResponse = False,
                 partial = None, stage = None \<rparr>)"

text \<open>\<open>processPartialCoTResponse\<close> (lines 265-299); it reads and writes no state.\<close>

definition processPartialCoTResponse :: "string \<Rightarrow> error + cot_result" where
  "processPartialCoTResponse fullText =
     (if js_includes fullText ''Thinking:'' \<and> \<not> js_includes fullText ''Answer:'' then
        Inr \<lparr> thinking = trim (replaceUpToThinking fullText []), answer = [],
              hasStructuredResponse = True, partial = Some True, stage = Some ''thinking'' \<rparr>
      else if js_includes fullText ''Thinking:'' \<and> js_includes fullText ''Answer:''
              \<and> thinkingMatch fullText \<noteq> None \<and> answerMatch fullText \<noteq> None then
        bindE (entryOf (thinkingMatch fullText)) (\<lambda>group1.
          bindE (entryOf (answerMatch fullText)) (\<lambda>group2.
            Inr \<lparr> thinking = trim group1, answer = trim group2, hasStructuredResponse = True,
                  partial = Some False, stage = None \<rparr>))
      else
        Inr \<lparr> thinking = [], answer = fullText, hasStructuredResponse = False,
              partial = None, stage = None \<rparr>)"

text \<open>\<open>s.toLowerCase()\<close> on the letters A-Z; other code units below 128 are unchanged.\<close>

definition lowerChar :: "char \<Rightarrow> char" where
  "lowerChar c =
     (case map_of (zip ''ABCDEFGHIJKLMNOPQRSTUVWXYZ'' ''abcdefghijklmnopqrstuvwxyz'') c of
        None \<Rightarrow> c
      | Some l \<Rightarrow> l)"

definition toLowerCase :: "string \<Rightarrow> string" where
  "toLowerCase s = map lowerChar s"

text \<open>
  The indicator shown while no answer is ready. The source writes an emoji before the
  word; its code units are above 255, the model writes the word alone.
\<close>

definition thinkingIndicator :: string where
  "thinkingIndicator = ''Thinking...''"

text \<open>\<open>formatResponseForDisplay\<close> (lines 306-324).\<close>

definition formatResponseForDisplay :: "settings_t \<Rightarrow> cot_result \<Rightarrow> string" where
  "formatResponseForDisplay s processed =
     (if \<not> enableCoT s \<or> \<not> hasStructuredResponse processed then answer processed
      else if showThinking s then
        (if partial processed = Some True \<and> stage processed = Some ''thinking''
           then ''Thinking: '' @ thinking processed
         else if partial processed = Some True then thinking processed
         else ''Thinking: '' @ thinking processed @ ''\<newline>\<newline>Answer: '' @ answer processed)
      else (if answer processed \<noteq> [] then answer processed else thinkingIndicator))"

text \<open>\<open>enhanceWithCoT\<close> (lines 197-201).\<close>

definition enhanceWithCoT :: "string \<Rightarrow> string" where
  "enhanceWithCoT msg =
     msg @ ''\<newline>\<newline>I'd like you to use Chain of Thought reasoning. Please think step-by-step before providing your final answer. Format your response like this:\<newline>Thinking: [detailed reasoning process, exploring different angles and considerations]\<newline>Answer: [your final, concise answer based on the reasoning above]''"

section \<open>Tool handlers\<close>

text \<open>
  \<open>err.message\<close> in a template, and \<open>err && err.message ? err.message : err\<close>: an error
  with an empty message prints as its name.
\<close>

fun errorName :: "error \<Rightarrow> string" where
  "errorName (Error m) = ''Error''"
| "errorName (TypeError m) = ''TypeError''"
| "errorName (SyntaxError m) = ''SyntaxError''"

definition messageOrError :: "error \<Rightarrow> string" where
  "messageOrError err = (if err_message err \<noteq> [] then err_message err else errorName err)"

text \<open>
  The argument checks of the handlers. \<open>args.query\<close> passes when it is a string that is
  not empty after \<open>trim\<close>; \<open>args.url\<close> passes when it is a string that matches
  \<open>/^https?:\/\//\<close>. Reading a property of \<open>null\<close> throws.
\<close>

definition validQuery :: "json \<Rightarrow> string option" where
  "validQuery args =
     (case getprop args ''query'' of
        Some (JString q) \<Rightarrow> (if q \<noteq> [] \<and> trim q \<noteq> [] then Some q else None)
      | other \<Rightarrow> None)"

definition validUrl :: "json \<Rightarrow> string option" where
  "validUrl args =
     (case getprop args ''url'' of
        Some (JString u) \<Rightarrow>
          (if u \<noteq> [] \<and> (startsWith u ''http://'' \<or> startsWith u ''https://'') then Some u
           else None)
      | other \<Rightarrow> None)"

definition nullArgs :: "'a prog" where
  "nullArgs = throw (TypeError ''Cannot read properties of null'')"

text \<open>\<open>start\<close> (line 94) and \<open>length\<close> (line 95) of a read.\<close>

definition readStart :: "json \<Rightarrow> number" where
  "readStart args =
     (case getprop args ''start'' of
        Some (JNumber n) \<Rightarrow> (if num_ge n (Finite 0) then n else Finite 0)
      | other \<Rightarrow> Finite 0)"

definition readLength :: "json \<Rightarrow> number" where
  "readLength args =
     (case getprop args ''length'' of
        Some (JNumber n) \<Rightarrow> (if num_less (Finite 0) n then n else Finite 1122)
      | other \<Rightarrow> Finite 1122)"

text \<open>\<open>toolHandlers.read_url\<close> (lines 86-112).\<close>

definition read_url :: "env \<Rightarrow> json \<Rightarrow> unit prog" where
  "read_url env args =
     (if args = JNull then nullArgs
      else case validUrl args of
        None \<Rightarrow> uiDo (AddMessage ''ai'' ''Error: Invalid read_url argument.'')
      | Some u \<Rightarrow>
          seqM [
            uiDo (ShowSpinner (''Reading content from '' @ u @ ''...'')),
            tryCatch
              (bindM (await (\<lambda>t. readUrl env t u)) (\<lambda>result.
                 let start = readStart args;
                     len = readLength args;
                     snippet = js_slice result start (num_add start len);
                     hasMore = num_less (num_add start len) (Finite (of_nat (length result)))
                 in seqM [
                      uiDo (AddReadResult u snippet hasMore),
                      pushTurn Assistant
                        (''Read content from '' @ u @ '':\<newline>'' @ snippet
                           @ (if hasMore then ''...'' else [])),
                      modify (\<lambda>st. st\<lparr>readSnippets := readSnippets st @ [snippet]\<rparr>),
                      bindM getState (\<lambda>st.
                        whenM (length (readSnippets st) \<ge> 2) (uiDo AddSummarizeButton))]))
              (\<lambda>err. seqM [
                 uiDo HideSpinner,
                 uiDo (AddMessage ''ai'' (''Read URL failed: '' @ err_message err)),
                 pushTurn Assistant (''Read URL failed: '' @ err_message err)]),
            uiDo HideSpinner])"

text \<open>\<open>toolHandlers.instant_answer\<close> (lines 113-130).\<close>

definition instant_answer :: "env \<Rightarrow> json \<Rightarrow> unit prog" where
  \<open>instant_answer env args =
     (if args = JNull then nullArgs
      else case validQuery args of
        None \<Rightarrow> uiDo (AddMessage ''ai'' ''Error: Invalid instant_answer query.'')
      | Some q \<Rightarrow>
          seqM [
            uiDo (ShowStatus (''Retrieving instant answer for "'' @ q @ ''"...'')),
            tryCatch
              (bindM (await (\<lambda>t. instantAnswer env t q)) (\<lambda>result.
                 let text = JSON_stringify_pretty env result
                 in seqM [uiDo (AddMessage ''ai'' text), pushTurn Assistant text]))
              (\<lambda>err. seqM [
                 uiDo ClearStatus,
                 uiDo (AddMessage ''ai'' (''Instant answer failed: '' @ err_message err)),
                 pushTurn Assistant (''Instant answer failed: '' @ err_message err)]),
            uiDo ClearStatus])\<close>

section \<open>Batch summarizer\<close>

definition MAX_PROMPT_LENGTH :: int where
  "MAX_PROMPT_LENGTH = 5857"

text \<open>
  The loop of \<open>splitIntoBatches\<close> (lines 817-834) with its three variables \<open>batches\<close>,
  \<open>currentBatch\<close> and \<open>currentLen\<close>. \<open>maxLen\<close> is a JavaScript number, here an integer.
\<close>

fun splitLoop ::
  "string list \<Rightarrow> int \<Rightarrow> string list list \<Rightarrow> string list \<Rightarrow> nat
     \<Rightarrow> string list list \<times> string list \<times> nat" where
  "splitLoop [] maxLen batches currentBatch currentLen = (batches, currentBatch, currentLen)"
| "splitLoop (snippet # rest) maxLen batches currentBatch currentLen =
     (if int (currentLen + length snippet) > maxLen \<and> currentBatch \<noteq> []
      then splitLoop rest maxLen (batches @ [currentBatch]) [snippet] (length snippet)
      else splitLoop rest maxLen batches (currentBatch @ [snippet]) (currentLen + length snippet))"

definition splitIntoBatches :: "string list \<Rightarrow> int \<Rightarrow> string list list" where
  "splitIntoBatches snippets maxLen =
     (case splitLoop snippets maxLen [] [] 0 of
        (batches, currentBatch, currentLen) \<Rightarrow>
          if currentBatch \<noteq> [] then batches @ [currentBatch] else batches)"

definition summarizePrompt :: "string \<Rightarrow> string" where
  "summarizePrompt body =
     ''Summarize the following information extracted from web pages (be as concise as possible):\<newline>\<newline>''
       @ body"

definition summarizeMessages :: "string \<Rightarrow> turn list" where
  "summarizeMessages prompt =
     [Turn System ''You are an assistant that synthesizes information from multiple sources.'',
      Turn User prompt]"

text \<open>
  The text of \<open>res.choices[0].message.content\<close>; the path does not exist when the
  transport answered without a choice, and reading it throws.
\<close>

definition replyContent :: "openai_result \<Rightarrow> string prog" where
  "replyContent res =
     (case oa_content res of
        None \<Rightarrow> throw (TypeError ''Cannot read properties of undefined'')
      | Some c \<Rightarrow> ret c)"

definition batchSeparator :: string where
  "batchSeparator = ''\<newline>---\<newline>''"

text \<open>The loop over the batches (lines 869-878): the summaries pushed so far, then the rest.\<close>

fun summarizeBatches ::
  "env \<Rightarrow> string \<Rightarrow> nat \<Rightarrow> nat \<Rightarrow> nat \<Rightarrow> string list list \<Rightarrow> string list \<Rightarrow> string list prog"
where
  "summarizeBatches env model round_no totalBatches i [] batchSummaries = ret batchSummaries"
| "summarizeBatches env model round_no totalBatches i (batch # rest) batchSummaries =
     thenM
       (uiDo (ShowSpinner (''Round '' @ show_nat round_no @ '': Summarizing batch '' @ show_nat (i + 1)
                @ '' of '' @ show_nat totalBatches @ ''...'')))
       (bindM (await (\<lambda>t. sendOpenAIRequest env t model
                 (summarizeMessages (summarizePrompt (join batchSeparator batch))))) (\<lambda>res.
          bindM (replyContent res) (\<lambda>c.
            summarizeBatches env model round_no totalBatches (i + 1) rest (batchSummaries @ [trim c]))))"

text \<open>
  \<open>summarizeSnippets\<close> (lines 837-893); \<open>round_no\<close> is its parameter \<open>round\<close>. The recursion on the batch summaries has no bound
  in the source; the fuel counts the rounds.
\<close>

fun summarizeSnippets :: "nat \<Rightarrow> env \<Rightarrow> string list option \<Rightarrow> nat \<Rightarrow> unit prog" where
  "summarizeSnippets 0 env snippetsArg round_no = outOfFuel"
| "summarizeSnippets (Suc n) env snippetsArg round_no =
     bindM getState (\<lambda>st0.
       let snippets = (case snippetsArg of None \<Rightarrow> readSnippets st0 | Some given \<Rightarrow> given);
           model = selectedModel env (clock st0)
       in if snippets = [] then ret ()
          else if length snippets = 1 then
            seqM [
              uiDo (ShowSpinner (''Round '' @ show_nat round_no @ '': Summarizing information...'')),
              tryCatch
                (bindM (await (\<lambda>t. sendOpenAIRequest env t model
                          (summarizeMessages (summarizePrompt (hd snippets))))) (\<lambda>res.
                   bindM (replyContent res) (\<lambda>c.
                     whenM (trim c \<noteq> []) (uiDo (AddMessage ''ai'' (''Summary:\<newline>'' @ trim c))))))
                (\<lambda>err. uiDo (AddMessage ''ai'' (''Summarization failed. Error: '' @ messageOrError err))),
              uiDo HideSpinner,
              modify (\<lambda>st. st\<lparr>readSnippets := []\<rparr>)]
          else
            (let batches = splitIntoBatches snippets MAX_PROMPT_LENGTH
             in seqM [
                  tryCatch
                    (bindM (summarizeBatches env model round_no (length batches) 0 batches [])
                       (\<lambda>batchSummaries.
                          let combined = join batchSeparator batchSummaries
                          in if int (length combined) > MAX_PROMPT_LENGTH then
                               thenM
                                 (uiDo (ShowSpinner (''Round '' @ show_nat (round_no + 1)
                                          @ '': Combining summaries...'')))
                                 (summarizeSnippets n env (Some batchSummaries) (round_no + 1))
                             else
                               thenM
                                 (uiDo (ShowSpinner (''Round '' @ show_nat round_no
                                          @ '': Finalizing summary...'')))
                                 (uiDo (AddMessage ''ai'' (''Summary:\<newline>'' @ combined)))))
                    (\<lambda>err. uiDo (AddMessage ''ai''
                              (''Summarization failed. Error: '' @ messageOrError err))),
                  uiDo HideSpinner,
                  modify (\<lambda>st. st\<lparr>readSnippets := []\<rparr>)]))"

section \<open>Tool calls\<close>

text \<open>The destructured argument of \<open>processToolCall\<close> (line 651).\<close>

record call =
  tool :: json
  arguments :: json
  skipContinue :: bool

text \<open>
  \<open>toolCall && toolCall.tool && toolCall.arguments\<close> on the value \<open>extractToolCall\<close>
  returned, and the call \<open>processToolCall\<close> destructures from it.
\<close>

definition interceptToolCall :: "env \<Rightarrow> string \<Rightarrow> error + call option" where
  "interceptToolCall env reply =
     bindE (extractToolCall env reply) (\<lambda>toolCall.
       Inr (case (getprop toolCall ''tool'', getprop toolCall ''arguments'') of
              (Some t, Some a) \<Rightarrow>
                (if truthy toolCall \<and> truthy t \<and> truthy a
                 then Some \<lparr> tool = t, arguments = a,
                             skipContinue = truthy_opt (getprop toolCall ''skipContinue'') \<rparr>
                 else None)
            | other \<Rightarrow> None))"

definition callSignature :: "env \<Rightarrow> call \<Rightarrow> string" where
  "callSignature env c = JSON_stringify env (JObject [(''tool'', tool c), (''args'', arguments c)])"

text \<open>The loop protection of \<open>processToolCall\<close> (lines 653-659).\<close>

definition loopProtection :: "string \<Rightarrow> state \<Rightarrow> state" where
  "loopProtection callSig st =
     (if lastToolCall st = Some callSig
      then st\<lparr>lastToolCallCount := lastToolCallCount st + 1\<rparr>
      else st\<lparr>lastToolCall := Some callSig, lastToolCallCount := 1\<rparr>)"

definition loopDetectedMessage :: string where
  "loopDetectedMessage =
     ''Error: Tool call loop detected. The same tool call has been made more than ''
       @ show_nat MAX_TOOL_CALL_REPEAT
       @ '' times in a row. Stopping to prevent infinite loop.''"

text \<open>The test of lines 669-678 on the last turn of the conversation.\<close>

definition lastTurnIsToolCall :: "env \<Rightarrow> state \<Rightarrow> bool" where
  "lastTurnIsToolCall env st =
     (if chatHistory st = [] then False
      else case JSON_parse env (content (last (chatHistory st))) of
             Inl err \<Rightarrow> False
           | Inr parsed \<Rightarrow>
               truthy_opt (getprop parsed ''tool'') \<and> truthy_opt (getprop parsed ''arguments''))"

section \<open>Streaming and replies\<close>

text \<open>The callback of a streaming request (lines 403-421 and 538-556).\<close>

definition streamCallback :: "string \<Rightarrow> unit prog" where
  "streamCallback fullText =
     bindM getState (\<lambda>st.
       if enableCoT (settings st) then
         bindM (settle (processPartialCoTResponse fullText)) (\<lambda>processed.
           seqM [
             whenM (isThinking st \<and> js_includes fullText ''Answer:'')
               (modify (\<lambda>s. s\<lparr>isThinking := False\<rparr>)),
             uiDo (UpdateMessageContent (formatResponseForDisplay (settings st) processed))])
       else uiDo (UpdateMessageContent fullText))"

text \<open>
  Awaiting a streaming request on the conversation: the callback runs on every text
  delivered, then the request resolves or rejects.
\<close>

definition awaitStream ::
  "(nat \<Rightarrow> turn list \<Rightarrow> string list \<times> (error + string)) \<Rightarrow> string prog" where
  "awaitStream request =
     bindM getState (\<lambda>st.
       case request (clock st) (chatHistory st) of
         (texts, outcome) \<Rightarrow>
           thenM (seqM (modify (\<lambda>s. s\<lparr>clock := Suc (clock s)\<rparr>) # map streamCallback texts))
                 (settle outcome))"

text \<open>
  A streamed reply that is not a tool call (lines 431-455 and 566-590): the display is
  updated, the reply is appended to the conversation, the token usage is asked for.
\<close>

definition finishStreamedReply :: "env \<Rightarrow> string \<Rightarrow> string \<Rightarrow> unit prog" where
  "finishStreamedReply env model fullReply =
     seqM [
       bindM getState (\<lambda>st.
         if enableCoT (settings st) then
           bindM (processCoTResponse fullReply) (\<lambda>processed.
             seqM [
               uiDo (UpdateMessageContent (formatResponseForDisplay (settings st) processed)),
               pushTurn Assistant fullReply])
         else pushTurn Assistant fullReply),
       bindM (bindM getState (\<lambda>st. await (\<lambda>t. getTokenUsage env t model (chatHistory st))))
         (\<lambda>tokenCount.
            whenM (tokenCount \<noteq> 0)
              (modify (\<lambda>s. s\<lparr>totalTokens := totalTokens s + tokenCount\<rparr>)))]"

text \<open>A complete reply that is not a tool call (lines 489-506 and 625-642).\<close>

definition finishReply :: "string \<Rightarrow> unit prog" where
  "finishReply reply =
     bindM getState (\<lambda>st.
       if enableCoT (settings st) then
         bindM (processCoTResponse reply) (\<lambda>processed.
           seqM [
             pushTurn Assistant reply,
             uiDo (AddMessage ''ai'' (formatResponseForDisplay (settings st) processed))])
       else seqM [pushTurn Assistant reply, uiDo (AddMessage ''ai'' reply)])"

definition geminiText :: "gemini_result \<Rightarrow> string prog" where
  "geminiText result =
     (case gm_text result of
        None \<Rightarrow> throw (TypeError ''Cannot read properties of undefined'')
      | Some t \<Rightarrow> ret t)"

section \<open>Web search and the suggestion flow\<close>

text \<open>
  The conversion of a value to a string, in a template and as a property key. An array is
  its elements joined by commas, \<open>null\<close> among them as the empty string. An object is
  \<open>[object Object]\<close>; when it has a property \<open>toString\<close> of its own, which is no function,
  the conversion finds no primitive value and throws.
\<close>

fun js_String :: "env \<Rightarrow> json \<Rightarrow> error + string"
  and js_Strings :: "env \<Rightarrow> json list \<Rightarrow> error + string list"
where
  "js_String env JNull = Inr ''null''"
| "js_String env (JBool b) = Inr (if b then ''true'' else ''false'')"
| "js_String env (JNumber n) = Inr (Number_toString env n)"
| "js_String env (JString s) = Inr s"
| "js_String env (JArray vs) =
     (case js_Strings env vs of Inl e \<Rightarrow> Inl e | Inr parts \<Rightarrow> Inr (join '','' parts))"
| "js_String env (JObject kvs) =
     (if map_of kvs ''toString'' \<noteq> None
      then Inl (TypeError ''Cannot convert object to primitive value'')
      else Inr ''[object Object]'')"
| "js_Strings env [] = Inr []"
| "js_Strings env (v # vs) =
     (case (if v = JNull then Inr [] else js_String env v) of
        Inl e \<Rightarrow> Inl e
      | Inr part \<Rightarrow>
          (case js_Strings env vs of Inl e \<Rightarrow> Inl e | Inr parts \<Rightarrow> Inr (part # parts)))"

definition searchEngine :: "json \<Rightarrow> json" where
  "searchEngine args =
     (case getprop args ''engine'' of
        None \<Rightarrow> JString ''duckduckgo''
      | Some e \<Rightarrow> if truthy e then e else JString ''duckduckgo'')"

definition searchResultsText :: "string \<Rightarrow> searchResult list \<Rightarrow> string" where
  \<open>searchResultsText query results =
     ''Search results for "'' @ query @ ''" ('' @ show_nat (length results) @ ''):\<newline>''
       @ join ''\<newline>''
           (map (\<lambda>(i, r). show_nat (i + 1) @ ''. '' @ sr_title r @ '' ('' @ sr_url r @ '') - ''
                            @ sr_snippet r)
                (enumerate 0 results))\<close>

text \<open>
  The callback of the search (lines 63-70), on the results delivered: the index of a
  result is its position in \<open>streamed\<close>.
\<close>

definition showStreamed :: "searchResult list \<Rightarrow> unit prog" where
  "showStreamed streamed =
     seqM (map (\<lambda>(idx, result).
                  bindM getState (\<lambda>st.
                    uiDo (AddSearchResult result (int idx \<in> highlightedResultIndices st))))
               (enumerate 0 streamed))"

definition suggestPrompt :: "string \<Rightarrow> searchResult list \<Rightarrow> string" where
  \<open>suggestPrompt query results =
     ''Given these search results for the query: "'' @ query
       @ ''", which results (by number) are most relevant to read in detail?\<newline>\<newline>''
       @ join ''\<newline>''
           (map (\<lambda>(i, r). show_nat (i + 1) @ ''. '' @ sr_title r @ '' - '' @ sr_snippet r)
                (enumerate 0 results))
       @ ''\<newline>\<newline>Reply with a comma-separated list of result numbers.''\<close>

text \<open>\<open>aiReply.match(/([\d, ]+)/)\<close>: the first run of digits, commas and spaces.\<close>

definition isListChar :: "char \<Rightarrow> bool" where
  "isListChar c = (isDigit c \<or> c = CHR '','' \<or> c = CHR '' '')"

definition matchNumberList :: "string \<Rightarrow> string option" where
  "matchNumberList s =
     (let r = dropWhile (\<lambda>c. \<not> isListChar c) s
      in if r = [] then None else Some (takeWhile isListChar r))"

text \<open>\<open>parseInt(s, 10)\<close> on a string of digits and spaces; \<open>None\<close> is \<open>NaN\<close>.\<close>

definition parseInt10 :: "string \<Rightarrow> nat option" where
  "parseInt10 s =
     (let ds = takeWhile isDigit (dropWhile isWhiteSpace s)
      in if ds = [] then None else Some (digits_val ds))"

definition suggestedNumbers :: "string \<Rightarrow> nat list" where
  "suggestedNumbers m = List.map_filter (\<lambda>s. parseInt10 (trim s)) (split_chr (CHR '','') m)"

text \<open>\<open>nums.map(n => lastSearchResults[n-1]?.url).filter(Boolean)\<close>.\<close>

definition urlsToRead :: "nat list \<Rightarrow> searchResult list \<Rightarrow> string list" where
  "urlsToRead nums results =
     List.map_filter
       (\<lambda>k. if 1 \<le> k \<and> k - 1 < length results \<and> sr_url (results ! (k - 1)) \<noteq> []
             then Some (sr_url (results ! (k - 1))) else None)
       nums"

section \<open>Deep read\<close>

text \<open>The variables of the loop of \<open>deepReadUrl\<close> (lines 710-714).\<close>

record deepRead_vars =
  allChunks :: "string list"
  start_offset :: nat
  shouldContinue :: bool
  chunkCount :: nat
  totalLength :: nat

definition cacheKey :: "string \<Rightarrow> nat \<Rightarrow> nat \<Rightarrow> string" where
  "cacheKey url start chunkSize = url @ '':'' @ show_nat start @ '':'' @ show_nat chunkSize"

definition deepReadCall :: "string \<Rightarrow> nat \<Rightarrow> nat \<Rightarrow> call" where
  "deepReadCall url start chunkSize =
     \<lparr> tool = JString ''read_url'',
       arguments = JObject [(''url'', JString url), (''start'', JNumber (Finite (of_nat start))),
                            (''length'', JNumber (Finite (of_nat chunkSize)))],
       skipContinue = True \<rparr>"

text \<open>The snippet read back from the last turn (lines 724-730), stored in the cache.\<close>

definition snippetOfLastTurn :: "string \<Rightarrow> string prog" where
  "snippetOfLastTurn key =
     bindM getState (\<lambda>st.
       if chatHistory st \<noteq> [] \<and> startsWith (content (last (chatHistory st))) ''Read content from''
       then (let snippet = join ''\<newline>'' (tl (split_chr (CHR 0x0A) (content (last (chatHistory st)))))
             in thenM (modify (\<lambda>s. s\<lparr>readCache := (readCache s)(key \<mapsto> snippet)\<rparr>)) (ret snippet))
       else ret [])"

definition deepReadPrompt :: "string \<Rightarrow> string \<Rightarrow> string" where
  \<open>deepReadPrompt url snippet =
     ''Given the following snippet from '' @ url
       @ '', do you need more content to answer the user's question? Please reply with "YES" or "NO" and a brief reason. If YES, estimate how many more characters you need.\<newline>\<newline>Snippet:\<newline>''
       @ snippet\<close>

text \<open>
  The question to the model (lines 736-751): \<open>Some\<close> the reply in lower case, \<open>None\<close>
  when asking failed.
\<close>

definition askIfMoreNeeded :: "env \<Rightarrow> string \<Rightarrow> string \<Rightarrow> string option prog" where
  "askIfMoreNeeded env url snippet =
     bindM getState (\<lambda>st.
       let model = selectedModel env (clock st)
       in tryCatch
            (if startsWith model ''gpt'' then
               bindM (await (\<lambda>t. sendOpenAIRequest env t model
                        [Turn System ''You are an assistant that decides if more content is needed from a web page.'',
                         Turn User (deepReadPrompt url snippet)])) (\<lambda>res.
                 bindM (replyContent res) (\<lambda>c. ret (Some (toLowerCase (trim c)))))
             else ret (Some []))
            (\<lambda>err. ret None))"

section \<open>The orchestration\<close>

text \<open>
  \<open>processToolCall\<close> calls the handlers and the message functions, and they call
  \<open>processToolCall\<close>: the source puts no bound on the chain. The functions below take
  \<open>processToolCall\<close> as their parameter \<open>ptc\<close>; \<open>processToolCall\<close> itself is defined last,
  by recursion on fuel, and passes itself with one unit less. The two loops (\<open>deepReadUrl\<close>
  and the rounds of \<open>summarizeSnippets\<close>) count their iterations on the same fuel.
\<close>

text \<open>The loop of \<open>deepReadUrl\<close> (lines 715-759).\<close>

primrec deepReadLoop ::
  "nat \<Rightarrow> env \<Rightarrow> (call \<Rightarrow> unit prog) \<Rightarrow> string \<Rightarrow> nat \<Rightarrow> nat \<Rightarrow> nat
     \<Rightarrow> deepRead_vars \<Rightarrow> deepRead_vars prog"
where
  "deepReadLoop 0 env ptc url maxChunks chunkSize maxTotalLength v = outOfFuel"
| "deepReadLoop (Suc n) env ptc url maxChunks chunkSize maxTotalLength v =
     (if \<not> (shouldContinue v \<and> chunkCount v < maxChunks \<and> totalLength v < maxTotalLength)
      then ret v
      else
        bindM
          (bindM getState (\<lambda>st.
             case readCache st (cacheKey url (start_offset v) chunkSize) of
               Some cached \<Rightarrow> ret cached
             | None \<Rightarrow>
                 thenM (ptc (deepReadCall url (start_offset v) chunkSize))
                       (snippetOfLastTurn (cacheKey url (start_offset v) chunkSize))))
          (\<lambda>snippet.
             if snippet = [] then ret v
             else
               bindM (askIfMoreNeeded env url snippet) (\<lambda>aiReply.
                 case aiReply of
                   None \<Rightarrow>
                     ret (v\<lparr>allChunks := allChunks v @ [snippet],
                            totalLength := totalLength v + length snippet,
                            shouldContinue := False\<rparr>)
                 | Some reply \<Rightarrow>
                     if startsWith reply ''yes''
                        \<and> totalLength v + length snippet < maxTotalLength
                     then deepReadLoop n env ptc url maxChunks chunkSize maxTotalLength
                            (v\<lparr>allChunks := allChunks v @ [snippet],
                               totalLength := totalLength v + length snippet,
                               start_offset := start_offset v + chunkSize,
                               chunkCount := chunkCount v + 1,
                               shouldContinue := True\<rparr>)
                     else deepReadLoop n env ptc url maxChunks chunkSize maxTotalLength
                            (v\<lparr>allChunks := allChunks v @ [snippet],
                               totalLength := totalLength v + length snippet,
                               shouldContinue := False\<rparr>))))"

text \<open>\<open>deepReadUrl\<close> (lines 709-761).\<close>

definition deepReadUrl ::
  "nat \<Rightarrow> env \<Rightarrow> (call \<Rightarrow> unit prog) \<Rightarrow> string \<Rightarrow> nat \<Rightarrow> nat \<Rightarrow> nat \<Rightarrow> string list prog"
where
  "deepReadUrl n env ptc url maxChunks chunkSize maxTotalLength =
     bindM (deepReadLoop n env ptc url maxChunks chunkSize maxTotalLength
              \<lparr> allChunks = [], start_offset = 0, shouldContinue = True, chunkCount = 0,
                totalLength = 0 \<rparr>)
       (\<lambda>v. ret (allChunks v))"

text \<open>The loop over the URLs (lines 779-783); \<open>i\<close> is the index of the first one left.\<close>

primrec readEachUrl ::
  "string list \<Rightarrow> nat \<Rightarrow> env \<Rightarrow> (call \<Rightarrow> unit prog) \<Rightarrow> nat \<Rightarrow> nat \<Rightarrow> unit prog"
where
  "readEachUrl [] n env ptc i nUrls = ret ()"
| "readEachUrl (url # rest) n env ptc i nUrls =
     seqM [
       uiDo (ShowSpinner (''Reading '' @ show_nat (i + 1) @ '' of '' @ show_nat nUrls @ '' URLs: ''
                @ url @ ''...'')),
       bindM (deepReadUrl n env ptc url 5 2000 10000) (\<lambda>chunks. ret ()),
       readEachUrl rest n env ptc (i + 1) nUrls]"

text \<open>\<open>autoReadAndSummarizeFromSuggestion\<close> (lines 764-789).\<close>

definition autoReadAndSummarizeFromSuggestion ::
  "nat \<Rightarrow> env \<Rightarrow> (call \<Rightarrow> unit prog) \<Rightarrow> string \<Rightarrow> unit prog"
where
  "autoReadAndSummarizeFromSuggestion n env ptc aiReply =
     bindM getState (\<lambda>st.
       if autoReadInProgress st then ret ()
       else if lastSearchResults st = [] then ret ()
       else case matchNumberList aiReply of
         None \<Rightarrow> ret ()
       | Some m \<Rightarrow>
           (let nums = suggestedNumbers m;
                urls = urlsToRead nums (lastSearchResults st)
            in if nums = [] then ret ()
               else
                 thenM
                   (modify (\<lambda>s. s\<lparr>highlightedResultIndices := set (map (\<lambda>k. int k - 1) nums)\<rparr>))
                   (if urls = [] then ret ()
                    else
                      thenM (modify (\<lambda>s. s\<lparr>autoReadInProgress := True\<rparr>))
                        (tryFinally
                           (thenM (readEachUrl urls n env ptc 0 (length urls))
                                  (summarizeSnippets n env None 1))
                           (modify (\<lambda>s. s\<lparr>autoReadInProgress := False\<rparr>))))))"

text \<open>\<open>suggestResultsToRead\<close> (lines 792-814).\<close>

definition suggestResultsToRead ::
  "nat \<Rightarrow> env \<Rightarrow> (call \<Rightarrow> unit prog) \<Rightarrow> searchResult list \<Rightarrow> string \<Rightarrow> unit prog"
where
  "suggestResultsToRead n env ptc results query =
     (if results = [] then ret ()
      else
        bindM getState (\<lambda>st.
          let model = selectedModel env (clock st)
          in tryCatch
               (bindM
                  (if startsWith model ''gpt'' then
                     bindM (await (\<lambda>t. sendOpenAIRequest env t model
                              [Turn System ''You are an assistant helping to select the most relevant search results.'',
                               Turn User (suggestPrompt query results)])) (\<lambda>res.
                       bindM (replyContent res) (\<lambda>c. ret (trim c)))
                   else ret [])
                  (\<lambda>aiReply.
                     whenM (aiReply \<noteq> [])
                       (seqM [
                          uiDo (AddMessage ''ai'' (''AI suggests reading results: '' @ aiReply)),
                          autoReadAndSummarizeFromSuggestion n env ptc aiReply])))
               (\<lambda>err. ret ())))"

text \<open>\<open>toolHandlers.web_search\<close> (lines 53-85).\<close>

definition web_search :: "nat \<Rightarrow> env \<Rightarrow> (call \<Rightarrow> unit prog) \<Rightarrow> json \<Rightarrow> unit prog" where
  \<open>web_search n env ptc args =
     (if args = JNull then nullArgs
      else case validQuery args of
        None \<Rightarrow> uiDo (AddMessage ''ai'' ''Error: Invalid web_search query.'')
      | Some q \<Rightarrow>
          bindM (settle (js_String env (searchEngine args))) (\<lambda>engine.
          seqM [
            uiDo (ShowSpinner (''Searching ('' @ engine @ '') for "'' @ q @ ''"...'')),
            tryCatch
              (bindM getState (\<lambda>st.
                 case webSearch env (clock st) q (searchEngine args) of
                   (streamed, outcome) \<Rightarrow>
                     seqM [
                       modify (\<lambda>s. s\<lparr>clock := Suc (clock s)\<rparr>),
                       showStreamed streamed,
                       bindM (settle outcome) (\<lambda>results.
                         seqM [
                           whenM (results = [])
                             (uiDo (AddMessage ''ai'' (''No search results found for "'' @ q @ ''".''))),
                           pushTurn Assistant (searchResultsText q results),
                           modify (\<lambda>s. s\<lparr>lastSearchResults := results\<rparr>),
                           suggestResultsToRead n env ptc results q])]))
              (\<lambda>err. seqM [
                 uiDo HideSpinner,
                 uiDo (AddMessage ''ai'' (''Web search failed: '' @ err_message err)),
                 pushTurn Assistant (''Web search failed: '' @ err_message err)]),
            uiDo HideSpinner]))\<close>

text \<open>
  The registry is an object literal, so a key that is none of its three names is looked up
  on \<open>Object.prototype\<close>. What calling such an inherited property with the arguments does:
  \<open>constructor\<close>, \<open>isPrototypeOf\<close>, \<open>toString\<close>, \<open>toLocaleString\<close> and \<open>valueOf\<close> return;
  \<open>hasOwnProperty\<close>, \<open>propertyIsEnumerable\<close>, \<open>__lookupGetter__\<close> and \<open>__lookupSetter__\<close>
  convert the arguments to a property key and return; \<open>__defineGetter__\<close> and
  \<open>__defineSetter__\<close> throw, for want of a function as their second argument;
  \<open>__proto__\<close> is an object and no function. None of them touches the state of the
  controller. \<open>None\<close> is a key that is not found.
\<close>

definition inheritedProperty :: "env \<Rightarrow> string \<Rightarrow> (json \<Rightarrow> error + unit) option" where
  "inheritedProperty env key =
     (if key \<in> set [''constructor'', ''isPrototypeOf'', ''toString'', ''toLocaleString'', ''valueOf'']
        then Some (\<lambda>args. Inr ())
      else if key \<in> set [''hasOwnProperty'', ''propertyIsEnumerable'', ''__lookupGetter__'',
                           ''__lookupSetter__'']
        then Some (\<lambda>args. case js_String env args of Inl e \<Rightarrow> Inl e | Inr k \<Rightarrow> Inr ())
      else if key \<in> set [''__defineGetter__'', ''__defineSetter__'']
        then Some (\<lambda>args. Inl (TypeError ''Getter or setter must be a function''))
      else if key = ''__proto__''
        then Some (\<lambda>args. Inl (TypeError ''toolHandlers[tool] is not a function''))
      else None)"

text \<open>
  The registry \<open>toolHandlers[tool](args)\<close> (line 666): \<open>tool\<close> is converted to a property
  key, the property is looked up and called. A key that is not found gives \<open>undefined\<close>,
  and calling it throws.
\<close>

definition toolHandlers ::
  "nat \<Rightarrow> env \<Rightarrow> (call \<Rightarrow> unit prog) \<Rightarrow> json \<Rightarrow> json \<Rightarrow> unit prog" where
  "toolHandlers n env ptc t args =
     bindM (settle (js_String env t)) (\<lambda>key.
       if key = ''web_search'' then web_search n env ptc args
       else if key = ''read_url'' then read_url env args
       else if key = ''instant_answer'' then instant_answer env args
       else case inheritedProperty env key of
              None \<Rightarrow> throw (TypeError ''toolHandlers[tool] is not a function'')
            | Some inherited \<Rightarrow> settle (inherited args))"

text \<open>\<open>handleOpenAIMessage\<close> (lines 384-511).\<close>

definition handleOpenAIMessage ::
  "env \<Rightarrow> (call \<Rightarrow> unit prog) \<Rightarrow> string \<Rightarrow> string \<Rightarrow> unit prog" where
  "handleOpenAIMessage env ptc model msg =
     bindM getState (\<lambda>st0.
       if streaming (settings st0) then
         seqM [
           uiDo (ShowStatus ''Streaming response...''),
           uiDo CreateEmptyAIMessage,
           tryFinally
             (tryCatch
                (seqM [
                   bindM getState (\<lambda>st.
                     whenM (enableCoT (settings st))
                       (seqM [modify (\<lambda>s. s\<lparr>isThinking := True\<rparr>),
                              uiDo (UpdateMessageContent thinkingIndicator)])),
                   bindM (awaitStream (\<lambda>t. streamOpenAIRequest env t model)) (\<lambda>fullReply.
                     bindM (settle (interceptToolCall env fullReply)) (\<lambda>intercepted.
                       case intercepted of
                         Some toolCall \<Rightarrow> ptc toolCall
                       | None \<Rightarrow> finishStreamedReply env model fullReply))])
                (\<lambda>err. thenM (uiDo (UpdateMessageContent (''Error: '' @ err_message err)))
                              (throw err)))
             (modify (\<lambda>s. s\<lparr>isThinking := False\<rparr>))]
       else
         seqM [
           uiDo (ShowStatus ''Waiting for AI response...''),
           bindM (bindM getState (\<lambda>st.
                    await (\<lambda>t. sendOpenAIRequest env t model (chatHistory st)))) (\<lambda>result.
             case oa_error result of
               Some m \<Rightarrow> throw (Error m)
             | None \<Rightarrow>
                 seqM [
                   whenM (oa_total_tokens result \<noteq> 0)
                     (modify (\<lambda>s. s\<lparr>totalTokens := totalTokens s + oa_total_tokens result\<rparr>)),
                   bindM (replyContent result) (\<lambda>reply.
                     bindM (settle (interceptToolCall env reply)) (\<lambda>intercepted.
                       case intercepted of
                         Some toolCall \<Rightarrow> ptc toolCall
                       | None \<Rightarrow> finishReply reply))])])"

text \<open>\<open>handleGeminiMessage\<close> (lines 518-647).\<close>

definition handleGeminiMessage ::
  "env \<Rightarrow> (call \<Rightarrow> unit prog) \<Rightarrow> string \<Rightarrow> string \<Rightarrow> unit prog" where
  "handleGeminiMessage env ptc model msg =
     thenM (pushTurn User msg)
       (bindM getState (\<lambda>st0.
          if streaming (settings st0) then
            seqM [
              uiDo CreateEmptyAIMessage,
              tryFinally
                (tryCatch
                   (seqM [
                      bindM getState (\<lambda>st.
                        whenM (enableCoT (settings st))
                          (seqM [modify (\<lambda>s. s\<lparr>isThinking := True\<rparr>),
                                 uiDo (UpdateMessageContent thinkingIndicator)])),
                      bindM (awaitStream (\<lambda>t. streamGeminiRequest env t model)) (\<lambda>fullReply.
                        bindM (settle (interceptToolCall env fullReply)) (\<lambda>intercepted.
                          case intercepted of
                            Some toolCall \<Rightarrow> ptc toolCall
                          | None \<Rightarrow> finishStreamedReply env model fullReply))])
                   (\<lambda>err. thenM (uiDo (UpdateMessageContent (''Error: '' @ err_message err)))
                                 (throw err)))
                (modify (\<lambda>s. s\<lparr>isThinking := False\<rparr>))]
          else
            bindM (bindM getState (\<lambda>st.
                     await (\<lambda>t. geminiSendMessage env t model msg (chatHistory st)))) (\<lambda>result.
              seqM [
                (case gm_totalTokenCount result of
                   None \<Rightarrow> ret ()
                 | Some k \<Rightarrow> modify (\<lambda>s. s\<lparr>totalTokens := totalTokens s + k\<rparr>)),
                bindM (geminiText result) (\<lambda>textResponse.
                  bindM (settle (interceptToolCall env textResponse)) (\<lambda>intercepted.
                    case intercepted of
                      Some toolCall \<Rightarrow> ptc toolCall
                    | None \<Rightarrow> finishReply textResponse))])))"

text \<open>The continuation of lines 668-689, after the handler.\<close>

definition continueReasoning :: "env \<Rightarrow> (call \<Rightarrow> unit prog) \<Rightarrow> unit prog" where
  "continueReasoning env ptc =
     bindM getState (\<lambda>st.
       if \<not> lastTurnIsToolCall env st then
         (if startsWith (selectedModel env (clock st)) ''gpt''
          then handleOpenAIMessage env ptc (selectedModel env (clock st)) []
          else handleGeminiMessage env ptc (selectedModel env (clock st)) [])
       else
         uiDo (AddMessage ''ai''
           ''Warning: AI outputted another tool call without reasoning. Stopping to prevent infinite loop.''))"

text \<open>\<open>processToolCall\<close> (lines 650-690).\<close>

primrec processToolCall :: "nat \<Rightarrow> env \<Rightarrow> call \<Rightarrow> unit prog" where
  "processToolCall 0 env = (\<lambda>c. outOfFuel)"
| "processToolCall (Suc n) env = (\<lambda>c.
     thenM (modify (loopProtection (callSignature env c)))
       (bindM getState (\<lambda>st.
          if lastToolCallCount st > MAX_TOOL_CALL_REPEAT then
            uiDo (AddMessage ''ai'' loopDetectedMessage)
          else
            seqM [
              modify (\<lambda>s. s\<lparr>toolCallHistory := toolCallHistory s @
                [\<lparr> entry_tool = tool c, entry_args = arguments c,
                    entry_timestamp = now env (clock s) \<rparr>]\<rparr>),
              toolHandlers n env (processToolCall n env) (tool c) (arguments c),
              whenM (\<not> skipContinue c) (continueReasoning env (processToolCall n env))])))"

section \<open>The public operations\<close>

text \<open>
  The content of the system turn (lines 141-156); the arrows, the ellipsis and the dashes of
  the source are written in ASCII.
\<close>

definition systemPrompt :: string where
  \<open>systemPrompt =
     ''You are an AI assistant with access to three tools for external information and you may call them multiple times to retrieve additional data:\<newline>1. web_search(query) -> returns a JSON array of search results [{title, url, snippet}, ...]\<newline>2. read_url(url[, start, length]) -> returns the text content of a web page from position 'start' (default 0) up to 'length' characters (default 1122)\<newline>3. instant_answer(query) -> returns a JSON object from DuckDuckGo's Instant Answer API for quick facts, definitions, and summaries (no proxies needed)\<newline>\<newline>For any question requiring up-to-date facts, statistics, or detailed content, choose the appropriate tool above. Use read_url to fetch initial snippets (default 1122 chars), then evaluate each snippet for relevance.\<newline>If a snippet ends with an ellipsis ("..."), always determine whether fetching more text will improve your answer. If it will, output a new read_url tool call JSON with the same url, start at your previous offset, and length set to 5000 to retrieve the next segment. Repeat this process - issuing successive read_url calls - until the snippet no longer ends with "..." or you judge that additional content is not valuable. Only then continue reasoning toward your final answer.\<newline>\<newline>When calling a tool, output EXACTLY a JSON object and nothing else, in this format:\<newline>{"tool":"web_search","arguments":{"query":"your query"}}\<newline>{"tool":"read_url","arguments":{"url":"https://example.com","start":0,"length":1122}}\<newline>or\<newline>{"tool":"instant_answer","arguments":{"query":"your query"}}\<newline>\<newline>Wait for the tool result to be provided before continuing your explanation or final answer.\<newline>After receiving the tool result, continue thinking step-by-step and then provide your answer.''\<close>

text \<open>\<open>init\<close> (lines 137-164), \<open>updateSettings\<close> (170-173) and \<open>clearChat\<close> (178-182).\<close>

definition init :: "settings_patch option \<Rightarrow> state \<Rightarrow> state" where
  "init initialSettings st =
     st\<lparr> chatHistory := [Turn System systemPrompt],
         settings := (case initialSettings of
                        None \<Rightarrow> settings st
                      | Some p \<Rightarrow> merge_settings (settings st) p),
         ui := ui st @ [SetupEventHandlers] \<rparr>"

definition updateSettings :: "settings_patch \<Rightarrow> state \<Rightarrow> state" where
  "updateSettings newSettings st = st\<lparr>settings := merge_settings (settings st) newSettings\<rparr>"

definition clearChat :: "state \<Rightarrow> state" where
  "clearChat st = st\<lparr>chatHistory := [], totalTokens := 0, ui := ui st @ [UpdateTokenDisplay 0]\<rparr>"

text \<open>\<open>sendMessage\<close> (lines 329-377).\<close>

definition sendMessage :: "nat \<Rightarrow> env \<Rightarrow> unit prog" where
  "sendMessage n env =
     bindM getState (\<lambda>st0.
       let msg = getUserInput env (clock st0)
       in if msg = [] then ret ()
          else
            seqM [
              uiDo (ShowStatus ''Sending message...''),
              uiDo (SetDisabled ''message-input'' True),
              uiDo (SetDisabled ''send-button'' True),
              modify (\<lambda>s. s\<lparr>lastThinkingContent := [], lastAnswerContent := []\<rparr>),
              uiDo (AddMessage ''user'' msg),
              uiDo ClearUserInput,
              bindM getState (\<lambda>st.
                let enhancedMessage = (if enableCoT (settings st) then enhanceWithCoT msg else msg);
                    model = selectedModel env (clock st)
                in tryFinally
                     (tryCatch
                        (if startsWith model ''gpt'' then
                           seqM [
                             pushTurn User enhancedMessage,
                             handleOpenAIMessage env (processToolCall n env) model enhancedMessage]
                         else
                           seqM [
                             whenM (chatHistory st = []) (pushTurn User []),
                             handleGeminiMessage env (processToolCall n env) model enhancedMessage])
                        (\<lambda>err. uiDo (AddMessage ''ai'' (''Error: '' @ err_message err))))
                     (seqM [
                        bindM getState (\<lambda>s. uiDo (UpdateTokenDisplay (totalTokens s))),
                        uiDo ClearStatus,
                        uiDo (SetDisabled ''message-input'' False),
                        uiDo (SetDisabled ''send-button'' False)]))])"

text \<open>The read-only operations of the public API.\<close>

definition getSettings :: "state \<Rightarrow> settings_t" where
  "getSettings st = settings st"

definition getChatHistory :: "state \<Rightarrow> turn list" where
  "getChatHistory st = chatHistory st"

definition getTotalTokens :: "state \<Rightarrow> nat" where
  "getTotalTokens st = totalTokens st"

definition getToolCallHistory :: "state \<Rightarrow> toolCallEntry list" where
  "getToolCallHistory st = toolCallHistory st"

section \<open>A reference environment\<close>

text \<open>
  An environment for concrete runs: the reference parser and printers, a model whose name
  starts with \<open>gpt\<close> and that answers every request with a text starting with "Yes", a
  page of 10000 characters behind every URL, a search without results and an
  instant-answer service that is offline.
\<close>

definition refEnv :: env where
  "refEnv =
     \<lparr> JSON_parse = json_parse,
       JSON_stringify = json_stringify,
       JSON_stringify_pretty = json_pretty [],
       Number_toString = show_number,
       now = (\<lambda>t. ''2025-01-01T00:00:00.000Z''),
       getUserInput = (\<lambda>t. ''hello''),
       selectedModel = (\<lambda>t. ''gpt-4o''),
       sendOpenAIRequest = (\<lambda>t model turns.
          Inr \<lparr> oa_error = None, oa_total_tokens = 7, oa_content = Some ''Yes, more please.'' \<rparr>),
       streamOpenAIRequest = (\<lambda>t model turns. ([''Hi''], Inr ''Hi there'')),
       streamGeminiRequest = (\<lambda>t model turns. ([''Hi''], Inr ''Hi there'')),
       geminiSendMessage = (\<lambda>t model msg turns.
          Inr \<lparr> gm_totalTokenCount = Some 5, gm_text = Some ''Hi there'' \<rparr>),
       getTokenUsage = (\<lambda>t model turns. Inr 3),
       webSearch = (\<lambda>t q engine. ([], Inr [])),
       readUrl = (\<lambda>t u. Inr (replicate 10000 (CHR ''a''))),
       instantAnswer = (\<lambda>t q. Inl (Error ''offline'')) \<rparr>"




text \<open>A state that holds an answer of an earlier turn.\<close>

definition staleState :: state where
  "staleState = initialState\<lparr>lastAnswerContent := ''42''\<rparr>"

text \<open>The page of the reference environment, and calls for concrete runs: two reads of
  different ranges with the continuation suppressed, and a read whose URL fails the check.\<close>

definition examplePage :: string where
  "examplePage = replicate 10000 (CHR ''a'')"

definition exampleCall :: call where
  "exampleCall = deepReadCall ''https://example.com'' 0 1122"


definition badCall :: call where
  "badCall = \<lparr> tool = JString ''read_url'',
               arguments = JObject [(''url'', JString ''ftp://example.com'')],
               skipContinue = True \<rparr>"


text \<open>The state after \<open>init\<close> and a first \<open>sendMessage\<close> in the reference environment.\<close>

definition firstExchange :: state where
  "firstExchange =
     (case sendMessage 1 refEnv (init None initialState) of
        Some (r, st') \<Rightarrow> st'
      | None \<Rightarrow> initialState)"

section \<open>Predicates of the statements\<close>


text \<open>A batch is within the budget, or it is one snippet that alone exceeds it.\<close>

definition batch_ok :: "int \<Rightarrow> string list \<Rightarrow> bool" where
  "batch_ok maxLen b =
     (b \<noteq> [] \<and> (int (length (concat b)) \<le> maxLen \<or> (\<exists>s. b = [s] \<and> maxLen < int (length s))))"


text \<open>
  A program keeps a relation between the state it starts in and the state it leaves,
  whenever it returns.
\<close>

definition keeps :: "(state \<Rightarrow> state \<Rightarrow> bool) \<Rightarrow> 'a prog \<Rightarrow> bool" where
  "keeps R m = (\<forall>st r st'. m st = Some (r, st') \<longrightarrow> R st st')"

definition preorder_on_states :: "(state \<Rightarrow> state \<Rightarrow> bool) \<Rightarrow> bool" where
  "preorder_on_states R = ((\<forall>s. R s s) \<and> (\<forall>a b c. R a b \<longrightarrow> R b c \<longrightarrow> R a c))"

text \<open>The conversation grows at its end, by turns that are not system turns.\<close>

definition appendsOnly :: "state \<Rightarrow> state \<Rightarrow> bool" where
  "appendsOnly st st' =
     (\<exists>new. chatHistory st' = chatHistory st @ new \<and> (\<forall>t \<in> set new. role t \<noteq> System))"

text \<open>The turn a successful read appends.\<close>

definition readTurn :: "string \<Rightarrow> string \<Rightarrow> bool \<Rightarrow> turn" where
  "readTurn u snippet hasMore =
     Turn Assistant (''Read content from '' @ u @ '':\<newline>'' @ snippet @ (if hasMore then ''...'' else []))"

text \<open>The conversation holds exactly one system turn, the first.\<close>

definition oneSystemFirst :: "state \<Rightarrow> bool" where
  "oneSystemFirst st =
     (\<exists>rest. chatHistory st = Turn System systemPrompt # rest \<and> (\<forall>t \<in> set rest. role t \<noteq> System))"

text \<open>
  The states a session reaches from \<open>init\<close>, called in any state, by the operations
  that do not reset the conversation: \<open>sendMessage\<close>, \<open>processToolCall\<close>,
  \<open>updateSettings\<close> and the summarize button. An operation counts when it returns.
\<close>

inductive reachable :: "env \<Rightarrow> state \<Rightarrow> bool" for env where
  started: "reachable env (init p st)"
| sent: "reachable env st \<Longrightarrow> sendMessage n env st = Some (r, st') \<Longrightarrow> reachable env st'"
| tool_called:
    "reachable env st \<Longrightarrow> processToolCall n env c st = Some (r, st') \<Longrightarrow> reachable env st'"
| settings_updated: "reachable env st \<Longrightarrow> reachable env (updateSettings p st)"
| summarized:
    "reachable env st \<Longrightarrow> summarizeSnippets n env None 1 st = Some (r, st') \<Longrightarrow> reachable env st'"

text \<open>The fields of the loop protection and the audit log are as before.\<close>

definition guardKept :: "state \<Rightarrow> state \<Rightarrow> bool" where
  "guardKept st st' =
     (lastToolCall st' = lastToolCall st \<and> lastToolCallCount st' = lastToolCallCount st
      \<and> toolCallHistory st' = toolCallHistory st)"

text \<open>A program returns from every state, with a value or an error.\<close>

definition returns :: "'a prog \<Rightarrow> bool" where
  "returns m = (\<forall>st. \<exists>r st'. m st = Some (r, st'))"

text \<open>The state after the loop protection and the audit-log entry (lines 653-665).\<close>

definition admitted :: "env \<Rightarrow> call \<Rightarrow> state \<Rightarrow> state" where
  "admitted env c st =
     (loopProtection (callSignature env c) st)
       \<lparr>toolCallHistory := toolCallHistory st @
          [\<lparr> entry_tool = tool c, entry_args = arguments c,
              entry_timestamp = now env (clock st) \<rparr>]\<rparr>"


text \<open>A call whose arguments fail the check of its handler, and the message of that check.\<close>

definition invalidCall :: "call \<Rightarrow> bool" where
  "invalidCall c =
     (arguments c \<noteq> JNull
      \<and> ((tool c = JString ''read_url'' \<and> validUrl (arguments c) = None)
         \<or> (tool c = JString ''web_search'' \<and> validQuery (arguments c) = None)
         \<or> (tool c = JString ''instant_answer'' \<and> validQuery (arguments c) = None)))"

definition invalidMessage :: "call \<Rightarrow> string" where
  "invalidMessage c =
     (if tool c = JString ''read_url'' then ''Error: Invalid read_url argument.''
      else if tool c = JString ''web_search'' then ''Error: Invalid web_search query.''
      else ''Error: Invalid instant_answer query.'')"

text \<open>
  The world of the deep-read scenario: the selected model is a \<open>gpt\<close> model that answers
  every request with a text that starts with "yes" once trimmed and lowered, and the
  transport serves the page for the URL.
\<close>

definition alwaysYes :: "env \<Rightarrow> bool" where
  "alwaysYes env =
     ((\<forall>t. startsWith (selectedModel env t) ''gpt'')
      \<and> (\<forall>t model msgs. \<exists>res c.
            sendOpenAIRequest env t model msgs = Inr res \<and> oa_content res = Some c
            \<and> startsWith (toLowerCase (trim c)) ''yes''))"

definition servesPage :: "env \<Rightarrow> string \<Rightarrow> string \<Rightarrow> bool" where
  "servesPage env url page = (\<forall>t. readUrl env t url = Inr page)"

text \<open>A URL that passes the check of \<open>read_url\<close> and holds no line break.\<close>

definition httpUrl :: "string \<Rightarrow> bool" where
  "httpUrl url = ((startsWith url ''http://'' \<or> startsWith url ''https://'') \<and> CHR 0x0A \<notin> set url)"

text \<open>
  The text the deep read takes back from the conversation for one chunk: the slice of the
  page, with the "..." that \<open>read_url\<close> appends when more of the page follows.
\<close>

definition chunkText :: "string \<Rightarrow> nat \<Rightarrow> nat \<Rightarrow> string" where
  "chunkText page start chunkSize =
     take chunkSize (drop start page)
       @ (if start + chunkSize < length page then ''...'' else [])"

text \<open>
  The state after \<open>processToolCall\<close> has read one chunk, and after the cache entry and the
  question to the model that follow it.
\<close>

definition afterRead :: "env \<Rightarrow> string \<Rightarrow> string \<Rightarrow> nat \<Rightarrow> nat \<Rightarrow> state \<Rightarrow> state" where
  "afterRead env url page start chunkSize st =
     (admitted env (deepReadCall url start chunkSize) st)
       \<lparr> clock := Suc (clock st),
         ui := ui st @ [ShowSpinner (''Reading content from '' @ url @ ''...''),
                        AddReadResult url (take chunkSize (drop start page))
                          (start + chunkSize < length page)]
                 @ (if 2 \<le> Suc (length (readSnippets st)) then [AddSummarizeButton] else [])
                 @ [HideSpinner],
         chatHistory := chatHistory st @
           [readTurn url (take chunkSize (drop start page)) (start + chunkSize < length page)],
         readSnippets := readSnippets st @ [take chunkSize (drop start page)] \<rparr>"

definition afterChunk :: "env \<Rightarrow> string \<Rightarrow> string \<Rightarrow> nat \<Rightarrow> nat \<Rightarrow> state \<Rightarrow> state" where
  "afterChunk env url page start chunkSize st =
     (afterRead env url page start chunkSize st)
       \<lparr> readCache := (readCache st)(cacheKey url start chunkSize \<mapsto> chunkText page start chunkSize),
         clock := Suc (Suc (clock st)) \<rparr>"

text \<open>The variables of the loop after one chunk and a "yes" (lines 733-758).\<close>

definition nextVars :: "deepRead_vars \<Rightarrow> string \<Rightarrow> nat \<Rightarrow> nat \<Rightarrow> deepRead_vars" where
  "nextVars v snippet chunkSize maxTotalLength =
     (if totalLength v + length snippet < maxTotalLength
      then v\<lparr>allChunks := allChunks v @ [snippet],
             totalLength := totalLength v + length snippet,
             start_offset := start_offset v + chunkSize,
             chunkCount := chunkCount v + 1,
             shouldContinue := True\<rparr>
      else v\<lparr>allChunks := allChunks v @ [snippet],
             totalLength := totalLength v + length snippet,
             shouldContinue := False\<rparr>)"

text \<open>
  A state in which the five reads of the scenario are neither cached nor stopped by the loop
  protection: the five cache keys are free, the five calls have five different signatures,
  and the first call is not a fourth repetition.
\<close>

definition freshFor :: "env \<Rightarrow> string \<Rightarrow> state \<Rightarrow> bool" where
  "freshFor env url st =
     ((\<forall>k \<in> set [0, 2000, 4000, 6000, 8000]. readCache st (cacheKey url k 2000) = None)
      \<and> distinct (map (\<lambda>k. callSignature env (deepReadCall url k 2000))
                      [0, 2000, 4000, 6000, 8000])
      \<and> \<not> (lastToolCall st = Some (callSignature env (deepReadCall url 0 2000))
             \<and> 3 \<le> lastToolCallCount st))"

text \<open>The variables at the start of the loop, the five chunks of a page of 10000 characters,
  and the state after the five rounds.\<close>

definition startVars :: deepRead_vars where
  "startVars = \<lparr> allChunks = [], start_offset = 0, shouldContinue = True, chunkCount = 0,
                 totalLength = 0 \<rparr>"

definition fiveChunks :: "string \<Rightarrow> string list" where
  "fiveChunks page =
     [take 2000 page @ ''...'', take 2000 (drop 2000 page) @ ''...'',
      take 2000 (drop 4000 page) @ ''...'', take 2000 (drop 6000 page) @ ''...'',
      drop 8000 page]"

definition afterFive :: "env \<Rightarrow> string \<Rightarrow> string \<Rightarrow> state \<Rightarrow> state" where
  "afterFive env url page st =
     afterChunk env url page 8000 2000
       (afterChunk env url page 6000 2000
         (afterChunk env url page 4000 2000
           (afterChunk env url page 2000 2000
             (afterChunk env url page 0 2000 st))))"

text \<open>
  What a run leaves of the loop protection: the audit log grows at its end; and while it
  does not grow, the signature recorded is the same and the counter has not fallen, nor
  changed at all from a value below 3.
\<close>

definition guardTrace :: "state \<Rightarrow> state \<Rightarrow> bool" where
  "guardTrace st st' =
     (\<exists>new. toolCallHistory st' = toolCallHistory st @ new
        \<and> (new = [] \<longrightarrow>
              lastToolCall st' = lastToolCall st
            \<and> lastToolCallCount st \<le> lastToolCallCount st'
            \<and> (lastToolCallCount st < 3 \<longrightarrow> lastToolCallCount st' = lastToolCallCount st)))"

text \<open>
  The call of a click on a search result (line 68): a read of the first 1122 characters,
  with the continuation. The state after a reply of the model that is no tool call, with
  streaming and chain of thought off (lines 466-506), and the state after the click in the
  reference environment.
\<close>

definition clickCall :: call where
  "clickCall =
     \<lparr> tool = JString ''read_url'',
       arguments = JObject [(''url'', JString ''https://example.com''),
                            (''start'', JNumber (Finite 0)), (''length'', JNumber (Finite 1122))],
       skipContinue = False \<rparr>"











section \<open>Theorems\<close>

lemmas prog_defs = ret_def throw_def outOfFuel_def bindM_def thenM_def tryCatch_def
  tryFinally_def getState_def modify_def whenM_def await_def settle_def uiDo_def pushTurn_def
  bindE_def catchE_def

lemma splitLoop_inv:
  assumes "splitLoop snippets maxLen batches cur curLen = (batches', cur', curLen')"
    and "curLen = length (concat cur)"
    and "\<forall>b \<in> set batches. batch_ok maxLen b"
    and "cur = [] \<or> batch_ok maxLen cur"
  shows "concat batches' @ cur' = concat batches @ cur @ snippets
       \<and> (\<forall>b \<in> set batches'. batch_ok maxLen b)
       \<and> (cur' = [] \<or> batch_ok maxLen cur')"
  using assms
proof (induction snippets arbitrary: batches cur curLen)
  case Nil
  then show ?case by simp
next
  case (Cons s rest)
  show ?case
  proof (cases "int (curLen + length s) > maxLen \<and> cur \<noteq> []")
    case True
    with Cons.prems have run:
      "splitLoop rest maxLen (batches @ [cur]) [s] (length s) = (batches', cur', curLen')"
      by simp
    have one: "[s] = [] \<or> batch_ok maxLen [s]"
      by (auto simp add: batch_ok_def)
    have all: "\<forall>b \<in> set (batches @ [cur]). batch_ok maxLen b"
      using Cons.prems True by auto
    from Cons.IH [OF run _ all one] show ?thesis by simp
  next
    case False
    with Cons.prems have run:
      "splitLoop rest maxLen batches (cur @ [s]) (curLen + length s) = (batches', cur', curLen')"
      by auto
    have len: "curLen + length s = length (concat (cur @ [s]))"
      using Cons.prems by simp
    have ok: "cur @ [s] = [] \<or> batch_ok maxLen (cur @ [s])"
    proof (cases "cur = []")
      case True
      then show ?thesis by (auto simp add: batch_ok_def)
    next
      case nonempty: False
      with False have "int (curLen + length s) \<le> maxLen" by simp
      with len show ?thesis by (simp add: batch_ok_def)
    qed
    from Cons.IH [OF run len Cons.prems(3) ok] show ?thesis by simp
  qed
qed

text \<open>
  C7. For every list of snippets and every positive budget, the batches of
  \<open>splitIntoBatches\<close> concatenate to the input list (they partition it in order, and a
  snippet is never split), every batch is non-empty, and every batch's total length is at
  most the budget unless the batch is a single snippet that alone exceeds the budget.
\<close>

theorem splitIntoBatches_partition:
  assumes "0 < maxLen"
  shows "concat (splitIntoBatches snippets maxLen) = snippets
       \<and> (\<forall>b \<in> set (splitIntoBatches snippets maxLen).
            b \<noteq> [] \<and>
            (int (length (concat b)) \<le> maxLen \<or> (\<exists>s. b = [s] \<and> maxLen < int (length s))))"
proof -
  obtain batches cur curLen where run:
    "splitLoop snippets maxLen [] [] 0 = (batches, cur, curLen)"
    by (cases "splitLoop snippets maxLen [] [] 0") auto
  have inv: "concat batches @ cur = snippets
       \<and> (\<forall>b \<in> set batches. batch_ok maxLen b) \<and> (cur = [] \<or> batch_ok maxLen cur)"
    using splitLoop_inv [OF run] by simp
  have res: "splitIntoBatches snippets maxLen = (if cur \<noteq> [] then batches @ [cur] else batches)"
    by (simp add: splitIntoBatches_def run)
  show ?thesis
    using inv unfolding res batch_ok_def by auto
qed

theorem splitIntoBatches_partition_witness:
  "(0::int) < 5
   \<and> splitIntoBatches [''ab'', ''cde'', ''fghijkl'', ''m''] 5
       = [[''ab'', ''cde''], [''fghijkl''], [''m'']]
   \<and> concat (splitIntoBatches [''ab'', ''cde'', ''fghijkl'', ''m''] 5)
       = [''ab'', ''cde'', ''fghijkl'', ''m'']
   \<and> list_all
        (\<lambda>b. b \<noteq> [] \<and>
          (int (length (concat b)) \<le> 5 \<or> (\<exists>s. b = [s] \<and> 5 < int (length s))))
        (splitIntoBatches [''ab'', ''cde'', ''fghijkl'', ''m''] 5)"
proof -
  have pos: "(0::int) < 5" by simp
  have run: "splitIntoBatches [''ab'', ''cde'', ''fghijkl'', ''m''] 5
       = [[''ab'', ''cde''], [''fghijkl''], [''m'']]"
    by (simp add: splitIntoBatches_def)
  from splitIntoBatches_partition [OF pos, of "[''ab'', ''cde'', ''fghijkl'', ''m'']"]
  show ?thesis
    unfolding list_all_iff using pos run by blast
qed

subsection \<open>The tool-call extractor\<close>

lemma startsWith_iff: "startsWith s p \<longleftrightarrow> (\<exists>r. s = p @ r)"
proof (induction s p rule: startsWith.induct)
  case (1 s) then show ?case by simp
next
  case (2 p ps) then show ?case by simp
next
  case (3 c cs p ps) then show ?case by auto
qed

lemma matchBraces_span:
  assumes "CHR ''{'' \<notin> set pre" and "CHR ''}'' \<notin> set post"
  shows "matchBraces (pre @ CHR ''{'' # body @ CHR ''}'' # post) = Some (CHR ''{'' # body @ [CHR ''}''])"
proof -
  have a: "dropWhile (\<lambda>c. c \<noteq> CHR ''{'') (pre @ CHR ''{'' # body @ CHR ''}'' # post)
        = CHR ''{'' # body @ CHR ''}'' # post"
    using assms(1) by (auto simp add: dropWhile_append3)
  have b: "rev (CHR ''{'' # body @ CHR ''}'' # post) = rev post @ CHR ''}'' # rev (CHR ''{'' # body)"
    by simp
  have c: "dropWhile (\<lambda>c. c \<noteq> CHR ''}'') (rev post @ CHR ''}'' # rev (CHR ''{'' # body))
        = CHR ''}'' # rev (CHR ''{'' # body)"
    using assms(2) by (auto simp add: dropWhile_append3)
  show ?thesis
    unfolding matchBraces_def Let_def a b c by simp
qed

lemmas json_eval = json_parse_def skip_ws_def json_ws_def parse_number_def parse_nat_lit_def
  isDigit_def digits_val_def

lemma extractToolCall_span:
  "matchBraces text = Some m \<Longrightarrow>
     extractToolCall env text = (case JSON_parse env m of Inr v \<Rightarrow> Inr v | Inl e \<Rightarrow> Inr JNull)"
  by (simp add: extractToolCall_def entryOf_def bindE_def catchE_def split: sum.splits)

lemma extractToolCall_none: "matchBraces text = None \<Longrightarrow> extractToolCall env text = Inr JNull"
  by (simp add: extractToolCall_def)

lemma matchBraces_wider:
  assumes "CHR ''{'' \<in> set before \<or> CHR ''}'' \<in> set after"
  shows "\<exists>wider. matchBraces (before @ CHR ''{'' # body @ CHR ''}'' # after) = Some wider
           \<and> length (CHR ''{'' # body @ [CHR ''}'']) < length wider"
proof (cases "CHR ''{'' \<in> set before")
  case True
  then obtain b1 b2 where before: "before = b1 @ CHR ''{'' # b2" and b1: "CHR ''{'' \<notin> set b1"
    by (auto dest: split_list_first)
  show ?thesis
  proof (cases "CHR ''}'' \<in> set after")
    case True
    then obtain a1 a2 where after: "after = a1 @ CHR ''}'' # a2" and a2: "CHR ''}'' \<notin> set a2"
      by (auto dest: split_list_last)
    have "before @ CHR ''{'' # body @ CHR ''}'' # after
        = b1 @ CHR ''{'' # (b2 @ CHR ''{'' # body @ CHR ''}'' # a1) @ CHR ''}'' # a2"
      by (simp add: before after)
    with matchBraces_span [OF b1 a2, of "b2 @ CHR ''{'' # body @ CHR ''}'' # a1"]
    have "matchBraces (before @ CHR ''{'' # body @ CHR ''}'' # after)
        = Some (CHR ''{'' # (b2 @ CHR ''{'' # body @ CHR ''}'' # a1) @ [CHR ''}''])"
      by simp
    then show ?thesis by simp
  next
    case False
    have "before @ CHR ''{'' # body @ CHR ''}'' # after
        = b1 @ CHR ''{'' # (b2 @ CHR ''{'' # body) @ CHR ''}'' # after"
      by (simp add: before)
    with matchBraces_span [OF b1 False, of "b2 @ CHR ''{'' # body"]
    have "matchBraces (before @ CHR ''{'' # body @ CHR ''}'' # after)
        = Some (CHR ''{'' # (b2 @ CHR ''{'' # body) @ [CHR ''}''])"
      by simp
    then show ?thesis by simp
  qed
next
  case False
  with assms have "CHR ''}'' \<in> set after" by simp
  then obtain a1 a2 where after: "after = a1 @ CHR ''}'' # a2" and a2: "CHR ''}'' \<notin> set a2"
    by (auto dest: split_list_last)
  have "before @ CHR ''{'' # body @ CHR ''}'' # after
      = before @ CHR ''{'' # (body @ CHR ''}'' # a1) @ CHR ''}'' # a2"
    by (simp add: after)
  with matchBraces_span [OF False a2, of "body @ CHR ''}'' # a1"]
  have "matchBraces (before @ CHR ''{'' # body @ CHR ''}'' # after)
      = Some (CHR ''{'' # (body @ CHR ''}'' # a1) @ [CHR ''}''])"
    by simp
  then show ?thesis by simp
qed

text \<open>
  C1, as stated: a valid tool-call object embedded anywhere in a reply is extracted,
  whatever surrounds it. It fails when the prose around the object holds a brace: the
  match runs from the first opening brace to the last closing brace of the whole reply.
  Here the object parses on its own, and the reply that embeds it yields \<open>null\<close>.
\<close>

theorem extractToolCall_greedy_counterexample:
  \<open>JSON_parse refEnv ''{"tool":"web_search","arguments":{"query":"x"}}''
      = Inr (JObject [(''tool'', JString ''web_search''),
                      (''arguments'', JObject [(''query'', JString ''x'')])])
   \<and> extractToolCall refEnv
        (''Calling: '' @ ''{"tool":"web_search","arguments":{"query":"x"}}'' @ '' (see {docs})'')
      = Inr JNull\<close>
  by (simp add: refEnv_def extractToolCall_def matchBraces_def json_eval entryOf_def bindE_def
      catchE_def)

text \<open>
  C1, amended: for a reply that embeds an object between a text before and a text after.
  When the text before holds no opening brace and the text after holds no closing brace
  (markdown fences, prose without braces), the span matched is exactly the object, and
  \<open>extractToolCall\<close> returns what \<open>JSON.parse\<close> returns for it, \<open>null\<close> when \<open>JSON.parse\<close>
  rejects it. When the text before holds an opening brace or the text after holds a
  closing brace, the span matched is longer than the object, and \<open>extractToolCall\<close>
  returns what \<open>JSON.parse\<close> returns for the longer span, \<open>null\<close> when \<open>JSON.parse\<close> rejects
  it. A reply without a span yields \<open>null\<close>.
\<close>

theorem extractToolCall_embedded:
  "(CHR ''{'' \<notin> set before \<and> CHR ''}'' \<notin> set after \<longrightarrow>
       matchBraces (before @ CHR ''{'' # body @ CHR ''}'' # after)
         = Some (CHR ''{'' # body @ [CHR ''}''])
     \<and> (\<forall>v. JSON_parse env (CHR ''{'' # body @ [CHR ''}'']) = Inr v \<longrightarrow>
            extractToolCall env (before @ CHR ''{'' # body @ CHR ''}'' # after) = Inr v)
     \<and> (\<forall>e. JSON_parse env (CHR ''{'' # body @ [CHR ''}'']) = Inl e \<longrightarrow>
            extractToolCall env (before @ CHR ''{'' # body @ CHR ''}'' # after) = Inr JNull))
   \<and> (CHR ''{'' \<in> set before \<or> CHR ''}'' \<in> set after \<longrightarrow>
       (\<exists>wider. matchBraces (before @ CHR ''{'' # body @ CHR ''}'' # after) = Some wider
          \<and> length (CHR ''{'' # body @ [CHR ''}'']) < length wider
          \<and> extractToolCall env (before @ CHR ''{'' # body @ CHR ''}'' # after)
               = (case JSON_parse env wider of Inr v \<Rightarrow> Inr v | Inl e \<Rightarrow> Inr JNull)))
   \<and> (matchBraces text = None \<longrightarrow> extractToolCall env text = Inr JNull)"
proof -
  let ?reply = "before @ CHR ''{'' # body @ CHR ''}'' # after"
  let ?object = "CHR ''{'' # body @ [CHR ''}'']"
  have exact: "matchBraces ?reply = Some ?object
     \<and> (\<forall>v. JSON_parse env ?object = Inr v \<longrightarrow> extractToolCall env ?reply = Inr v)
     \<and> (\<forall>e. JSON_parse env ?object = Inl e \<longrightarrow> extractToolCall env ?reply = Inr JNull)"
    if "CHR ''{'' \<notin> set before \<and> CHR ''}'' \<notin> set after"
  proof -
    from that have m: "matchBraces ?reply = Some ?object"
      by (simp add: matchBraces_span)
    from extractToolCall_span [OF m, of env] m show ?thesis by simp
  qed
  have wide: "\<exists>wider. matchBraces ?reply = Some wider \<and> length ?object < length wider
          \<and> extractToolCall env ?reply
               = (case JSON_parse env wider of Inr v \<Rightarrow> Inr v | Inl e \<Rightarrow> Inr JNull)"
    if "CHR ''{'' \<in> set before \<or> CHR ''}'' \<in> set after"
  proof -
    from matchBraces_wider [OF that, of body] obtain wider
      where m: "matchBraces ?reply = Some wider" and l: "length ?object < length wider"
      by blast
    from extractToolCall_span [OF m, of env] m l show ?thesis by blast
  qed
  have none: "matchBraces text = None \<longrightarrow> extractToolCall env text = Inr JNull"
    using extractToolCall_none by blast
  from exact wide none show ?thesis by blast
qed

theorem extractToolCall_embedded_witness:
  \<open>CHR ''{'' \<notin> set ''```json\<newline>'' \<and> CHR ''}'' \<notin> set ''\<newline>```''
   \<and> extractToolCall refEnv
        (''```json\<newline>'' @ CHR ''{'' # ''"tool":"web_search","arguments":{"query":"x"}''
           @ CHR ''}'' # ''\<newline>```'')
      = Inr (JObject [(''tool'', JString ''web_search''),
                      (''arguments'', JObject [(''query'', JString ''x'')])])\<close>
proof -
  have a: "CHR ''{'' \<notin> set ''```json\<newline>'' \<and> CHR ''}'' \<notin> set ''\<newline>```''" by simp
  have c: \<open>JSON_parse refEnv (CHR ''{'' # ''"tool":"web_search","arguments":{"query":"x"}'' @ [CHR ''}''])
      = Inr (JObject [(''tool'', JString ''web_search''),
                      (''arguments'', JObject [(''query'', JString ''x'')])])\<close>
    by (simp add: refEnv_def json_eval)
  note inst = extractToolCall_embedded [of "''```json\<newline>''" "''\<newline>```''" _ refEnv, THEN conjunct1,
      THEN mp, OF a, THEN conjunct2, THEN conjunct1, THEN spec, THEN mp, OF c]
  from inst a show ?thesis by simp
qed

subsection \<open>The chain-of-thought classifiers\<close>

lemma thinkingMatch_includes: "thinkingMatch text \<noteq> None \<longleftrightarrow> js_includes text ''Thinking:''"
  by (auto simp add: js_includes_def thinkingMatch_def Let_def split: option.splits)

lemma answerMatch_includes: "answerMatch text \<noteq> None \<longleftrightarrow> js_includes text ''Answer:''"
  by (auto simp add: js_includes_def answerMatch_def split: option.splits)

lemma startsWith_includes: "startsWith s pat \<Longrightarrow> js_includes s pat"
  by (cases s; cases pat) (auto simp add: js_includes_def)

text \<open>
  C6, as stated: on a text with a \<open>Thinking:\<close> marker and no \<open>Answer:\<close> marker both
  classifiers answer partial, stage "thinking", with the answer stored before. It fails
  twice. The streaming classifier answers with the empty answer, not the stored one
  (here "42"); and the final classifier answers so only when the text starts with the
  marker: with prose before the marker the whole text is the answer of an unstructured
  result.
\<close>

theorem cot_stale_answer_counterexample:
  "js_includes ''Thinking: still working'' ''Thinking:''
   \<and> \<not> js_includes ''Thinking: still working'' ''Answer:''
   \<and> lastAnswerContent staleState = ''42''
   \<and> processPartialCoTResponse ''Thinking: still working''
        = Inr \<lparr> thinking = ''still working'', answer = [],
                hasStructuredResponse = True, partial = Some True, stage = Some ''thinking'' \<rparr>
   \<and> js_includes ''Well. Thinking: still working'' ''Thinking:''
   \<and> \<not> js_includes ''Well. Thinking: still working'' ''Answer:''
   \<and> processCoTResponse ''Well. Thinking: still working'' staleState
        = Some (Inr \<lparr> thinking = [], answer = ''Well. Thinking: still working'',
                      hasStructuredResponse = False, partial = None, stage = None \<rparr>,
                staleState)"
  by (simp add: js_includes_def processPartialCoTResponse_def processCoTResponse_def
      thinkingMatch_def answerMatch_def staleState_def replaceUpToThinking_def trim_def
      isWhiteSpace_def ret_def)

text \<open>
  C6, amended: on a text with a \<open>Thinking:\<close> marker and no \<open>Answer:\<close> marker, the streaming
  classifier \<open>processPartialCoTResponse\<close> answers partial, stage "thinking", with the
  empty answer; the final classifier \<open>processCoTResponse\<close> answers partial, stage
  "thinking", with the stored answer \<open>lastAnswerContent\<close> when the text starts with the
  marker.
\<close>

theorem cot_thinking_only:
  assumes "js_includes text ''Thinking:''" and "\<not> js_includes text ''Answer:''"
  shows "processPartialCoTResponse text
           = Inr \<lparr> thinking = trim (replaceUpToThinking text []), answer = [],
                   hasStructuredResponse = True, partial = Some True, stage = Some ''thinking'' \<rparr>
       \<and> (startsWith text ''Thinking:'' \<longrightarrow>
            processCoTResponse text st
              = Some (Inr \<lparr> thinking = trim (drop 9 text), answer = lastAnswerContent st,
                            hasStructuredResponse = True, partial = Some True,
                            stage = Some ''thinking'' \<rparr>,
                      st\<lparr>lastThinkingContent := trim (drop 9 text)\<rparr>))"
proof -
  from assms(2) have am: "answerMatch text = None"
    using answerMatch_includes by blast
  have a: "processPartialCoTResponse text
           = Inr \<lparr> thinking = trim (replaceUpToThinking text []), answer = [],
                   hasStructuredResponse = True, partial = Some True, stage = Some ''thinking'' \<rparr>"
    using assms by (simp add: processPartialCoTResponse_def)
  have b: "startsWith text ''Thinking:'' \<longrightarrow>
            processCoTResponse text st
              = Some (Inr \<lparr> thinking = trim (drop 9 text), answer = lastAnswerContent st,
                            hasStructuredResponse = True, partial = Some True,
                            stage = Some ''thinking'' \<rparr>,
                      st\<lparr>lastThinkingContent := trim (drop 9 text)\<rparr>)"
    using assms am
    by (simp add: processCoTResponse_def stripThinkingPrefix_def thenM_def bindM_def modify_def
        getState_def ret_def)
  from a b show ?thesis by blast
qed

theorem cot_thinking_only_witness:
  "js_includes ''Thinking: still working'' ''Thinking:''
   \<and> \<not> js_includes ''Thinking: still working'' ''Answer:''
   \<and> processPartialCoTResponse ''Thinking: still working''
        = Inr \<lparr> thinking = ''still working'', answer = [],
                hasStructuredResponse = True, partial = Some True, stage = Some ''thinking'' \<rparr>
   \<and> processCoTResponse ''Thinking: still working'' staleState
        = Some (Inr \<lparr> thinking = ''still working'', answer = ''42'',
                      hasStructuredResponse = True, partial = Some True,
                      stage = Some ''thinking'' \<rparr>,
                staleState\<lparr>lastThinkingContent := ''still working''\<rparr>)"
proof -
  have i: "js_includes ''Thinking: still working'' ''Thinking:''"
    by (simp add: js_includes_def)
  have n: "\<not> js_includes ''Thinking: still working'' ''Answer:''"
    by (simp add: js_includes_def)
  have s: "startsWith ''Thinking: still working'' ''Thinking:''" by simp
  from cot_thinking_only [OF i n, of staleState] s i n show ?thesis
    by (simp add: replaceUpToThinking_def trim_def isWhiteSpace_def staleState_def)
qed

lemma processCoTResponse_cases:
  "(js_includes text ''Thinking:'' \<and> js_includes text ''Answer:'' \<longrightarrow>
      (\<exists>tm am. thinkingMatch text = Some tm \<and> answerMatch text = Some am
         \<and> processCoTResponse text st
             = Some (Inr \<lparr> thinking = trim tm, answer = trim am, hasStructuredResponse = True,
                           partial = None, stage = None \<rparr>,
                     st\<lparr>lastThinkingContent := trim tm, lastAnswerContent := trim am\<rparr>)))
   \<and> (startsWith text ''Thinking:'' \<and> \<not> js_includes text ''Answer:'' \<longrightarrow>
        processCoTResponse text st
          = Some (Inr \<lparr> thinking = trim (drop 9 text), answer = lastAnswerContent st,
                        hasStructuredResponse = True, partial = Some True,
                        stage = Some ''thinking'' \<rparr>,
                  st\<lparr>lastThinkingContent := trim (drop 9 text)\<rparr>))
   \<and> (\<not> startsWith text ''Thinking:''
        \<and> \<not> (js_includes text ''Thinking:'' \<and> js_includes text ''Answer:'') \<longrightarrow>
        processCoTResponse text st
          = Some (Inr \<lparr> thinking = [], answer = text, hasStructuredResponse = False,
                        partial = None, stage = None \<rparr>,
                  st))"
proof -
  have both: "\<exists>tm am. thinkingMatch text = Some tm \<and> answerMatch text = Some am
         \<and> processCoTResponse text st
             = Some (Inr \<lparr> thinking = trim tm, answer = trim am, hasStructuredResponse = True,
                           partial = None, stage = None \<rparr>,
                     st\<lparr>lastThinkingContent := trim tm, lastAnswerContent := trim am\<rparr>)"
    if "js_includes text ''Thinking:'' \<and> js_includes text ''Answer:''"
  proof -
    from that obtain tm am where tm: "thinkingMatch text = Some tm"
      and am: "answerMatch text = Some am"
      using thinkingMatch_includes answerMatch_includes by blast
    then show ?thesis
      by (simp add: processCoTResponse_def entryOf_def prog_defs)
  qed
  have only: "processCoTResponse text st
          = Some (Inr \<lparr> thinking = trim (drop 9 text), answer = lastAnswerContent st,
                        hasStructuredResponse = True, partial = Some True,
                        stage = Some ''thinking'' \<rparr>,
                  st\<lparr>lastThinkingContent := trim (drop 9 text)\<rparr>)"
    if "startsWith text ''Thinking:'' \<and> \<not> js_includes text ''Answer:''"
  proof -
    from that have "answerMatch text = None"
      using answerMatch_includes by blast
    with that show ?thesis
      by (simp add: processCoTResponse_def stripThinkingPrefix_def prog_defs)
  qed
  have plain: "processCoTResponse text st
          = Some (Inr \<lparr> thinking = [], answer = text, hasStructuredResponse = False,
                        partial = None, stage = None \<rparr>,
                  st)"
    if c: "\<not> startsWith text ''Thinking:''
        \<and> \<not> (js_includes text ''Thinking:'' \<and> js_includes text ''Answer:'')"
  proof -
    from c have "thinkingMatch text = None \<or> answerMatch text = None"
      using thinkingMatch_includes answerMatch_includes by blast
    moreover have "js_includes text ''Thinking:'' \<longrightarrow> thinkingMatch text \<noteq> None"
      using thinkingMatch_includes by blast
    ultimately show ?thesis
      using c by (auto simp add: processCoTResponse_def prog_defs)
  qed
  from both only plain show ?thesis by blast
qed

lemma processPartialCoTResponse_cases:
  "(js_includes text ''Thinking:'' \<and> \<not> js_includes text ''Answer:'' \<longrightarrow>
      processPartialCoTResponse text
        = Inr \<lparr> thinking = trim (replaceUpToThinking text []), answer = [],
                hasStructuredResponse = True, partial = Some True, stage = Some ''thinking'' \<rparr>)
   \<and> (js_includes text ''Thinking:'' \<and> js_includes text ''Answer:'' \<longrightarrow>
        (\<exists>tm am. thinkingMatch text = Some tm \<and> answerMatch text = Some am
           \<and> processPartialCoTResponse text
               = Inr \<lparr> thinking = trim tm, answer = trim am, hasStructuredResponse = True,
                       partial = Some False, stage = None \<rparr>))
   \<and> (\<not> js_includes text ''Thinking:'' \<longrightarrow>
        processPartialCoTResponse text
          = Inr \<lparr> thinking = [], answer = text, hasStructuredResponse = False,
                  partial = None, stage = None \<rparr>)"
proof -
  have both: "\<exists>tm am. thinkingMatch text = Some tm \<and> answerMatch text = Some am
           \<and> processPartialCoTResponse text
               = Inr \<lparr> thinking = trim tm, answer = trim am, hasStructuredResponse = True,
                       partial = Some False, stage = None \<rparr>"
    if "js_includes text ''Thinking:'' \<and> js_includes text ''Answer:''"
  proof -
    from that obtain tm am where tm: "thinkingMatch text = Some tm"
      and am: "answerMatch text = Some am"
      using thinkingMatch_includes answerMatch_includes by blast
    with that show ?thesis
      by (simp add: processPartialCoTResponse_def entryOf_def bindE_def)
  qed
  from both show ?thesis
    by (simp add: processPartialCoTResponse_def)
qed

text \<open>
  C8. For every text, every state and every \<open>JSON.parse\<close>, the three classifiers return a
  value and throw no error. \<open>extractToolCall\<close> returns \<open>null\<close> when the text has no brace
  span and when \<open>JSON.parse\<close> rejects the span (its error is caught), and the reply is then
  not taken for a tool call; it returns the parsed value otherwise. \<open>processCoTResponse\<close>
  returns the complete structured result when both markers are present, the partial
  result of stage "thinking" when the text starts with \<open>Thinking:\<close> and has no \<open>Answer:\<close>,
  and the unstructured result with the whole text as the answer in every other case (the
  fourth case of the source, a \<open>Thinking:\<close> marker that its pattern does not match, never
  arises). \<open>processPartialCoTResponse\<close> returns the partial result of stage "thinking" with
  the empty answer when only \<open>Thinking:\<close> is present, the structured result when both
  markers are present, and the unstructured result when \<open>Thinking:\<close> is absent. The
  entries of a match are read only where the match is not \<open>null\<close>.
\<close>

theorem classifiers_total:
  "(\<exists>v. extractToolCall env text = Inr v)
   \<and> (\<exists>c. interceptToolCall env text = Inr c)
   \<and> (matchBraces text = None \<longrightarrow>
        extractToolCall env text = Inr JNull \<and> interceptToolCall env text = Inr None)
   \<and> (\<forall>m e. matchBraces text = Some m \<and> JSON_parse env m = Inl e \<longrightarrow>
          extractToolCall env text = Inr JNull \<and> interceptToolCall env text = Inr None)
   \<and> (\<forall>m v. matchBraces text = Some m \<and> JSON_parse env m = Inr v \<longrightarrow>
          extractToolCall env text = Inr v)
   \<and> (\<exists>r st'. processCoTResponse text st = Some (Inr r, st'))
   \<and> (js_includes text ''Thinking:'' \<and> js_includes text ''Answer:'' \<longrightarrow>
        (\<exists>tm am. thinkingMatch text = Some tm \<and> answerMatch text = Some am
           \<and> processCoTResponse text st
               = Some (Inr \<lparr> thinking = trim tm, answer = trim am, hasStructuredResponse = True,
                             partial = None, stage = None \<rparr>,
                       st\<lparr>lastThinkingContent := trim tm, lastAnswerContent := trim am\<rparr>)))
   \<and> (startsWith text ''Thinking:'' \<and> \<not> js_includes text ''Answer:'' \<longrightarrow>
        processCoTResponse text st
          = Some (Inr \<lparr> thinking = trim (drop 9 text), answer = lastAnswerContent st,
                        hasStructuredResponse = True, partial = Some True,
                        stage = Some ''thinking'' \<rparr>,
                  st\<lparr>lastThinkingContent := trim (drop 9 text)\<rparr>))
   \<and> (\<not> startsWith text ''Thinking:''
        \<and> \<not> (js_includes text ''Thinking:'' \<and> js_includes text ''Answer:'') \<longrightarrow>
        processCoTResponse text st
          = Some (Inr \<lparr> thinking = [], answer = text, hasStructuredResponse = False,
                        partial = None, stage = None \<rparr>,
                  st))
   \<and> (\<exists>p. processPartialCoTResponse text = Inr p)
   \<and> (js_includes text ''Thinking:'' \<and> \<not> js_includes text ''Answer:'' \<longrightarrow>
        processPartialCoTResponse text
          = Inr \<lparr> thinking = trim (replaceUpToThinking text []), answer = [],
                  hasStructuredResponse = True, partial = Some True, stage = Some ''thinking'' \<rparr>)
   \<and> (js_includes text ''Thinking:'' \<and> js_includes text ''Answer:'' \<longrightarrow>
        (\<exists>tm am. thinkingMatch text = Some tm \<and> answerMatch text = Some am
           \<and> processPartialCoTResponse text
               = Inr \<lparr> thinking = trim tm, answer = trim am, hasStructuredResponse = True,
                       partial = Some False, stage = None \<rparr>))
   \<and> (\<not> js_includes text ''Thinking:'' \<longrightarrow>
        processPartialCoTResponse text
          = Inr \<lparr> thinking = [], answer = text, hasStructuredResponse = False,
                  partial = None, stage = None \<rparr>)"
proof -
  have ex: "extractToolCall env text = Inr JNull \<or> (\<exists>m v. matchBraces text = Some m
      \<and> JSON_parse env m = Inr v \<and> extractToolCall env text = Inr v)"
  proof (cases "matchBraces text")
    case None
    then show ?thesis by (simp add: extractToolCall_none)
  next
    case (Some m)
    from extractToolCall_span [OF Some, of env] Some show ?thesis
      by (cases "JSON_parse env m") simp_all
  qed
  then have a: "\<exists>v. extractToolCall env text = Inr v" by blast
  then have b: "\<exists>c. interceptToolCall env text = Inr c"
    by (auto simp add: interceptToolCall_def bindE_def)
  have null: "interceptToolCall env text = Inr None" if "extractToolCall env text = Inr JNull"
    using that by (simp add: interceptToolCall_def bindE_def)
  have c: "matchBraces text = None \<longrightarrow>
        extractToolCall env text = Inr JNull \<and> interceptToolCall env text = Inr None"
    using extractToolCall_none null by blast
  have d: "\<forall>m e. matchBraces text = Some m \<and> JSON_parse env m = Inl e \<longrightarrow>
          extractToolCall env text = Inr JNull \<and> interceptToolCall env text = Inr None"
  proof (intro allI impI)
    fix m e
    assume h: "matchBraces text = Some m \<and> JSON_parse env m = Inl e"
    with extractToolCall_span [of "text" m env] have "extractToolCall env text = Inr JNull"
      by simp
    with null show "extractToolCall env text = Inr JNull \<and> interceptToolCall env text = Inr None"
      by blast
  qed
  have e: "\<forall>m v. matchBraces text = Some m \<and> JSON_parse env m = Inr v \<longrightarrow>
          extractToolCall env text = Inr v"
  proof (intro allI impI)
    fix m v
    assume h: "matchBraces text = Some m \<and> JSON_parse env m = Inr v"
    with extractToolCall_span [of "text" m env] show "extractToolCall env text = Inr v"
      by simp
  qed
  note f = processCoTResponse_cases [of "text" st]
  have g: "\<exists>r st'. processCoTResponse text st = Some (Inr r, st')"
  proof (cases "js_includes text ''Thinking:'' \<and> js_includes text ''Answer:''")
    case True
    with f show ?thesis by blast
  next
    case False
    show ?thesis
    proof (cases "startsWith text ''Thinking:''")
      case True
      with False have "\<not> js_includes text ''Answer:''"
        using startsWith_includes by blast
      with True f show ?thesis by blast
    next
      case no_start: False
      with False f show ?thesis by blast
    qed
  qed
  note h = processPartialCoTResponse_cases [of "text"]
  have i: "\<exists>p. processPartialCoTResponse text = Inr p"
    using h by (cases "js_includes text ''Thinking:''"; cases "js_includes text ''Answer:''") blast+
  from a b c d e f g h i show ?thesis by blast
qed

theorem classifiers_total_witness:
  \<open>matchBraces ''Thinking: {oops} Answer: 42'' = Some ''{oops}''
   \<and> JSON_parse refEnv ''{oops}'' = Inl (SyntaxError ''Unexpected token in JSON'')
   \<and> extractToolCall refEnv ''Thinking: {oops} Answer: 42'' = Inr JNull
   \<and> interceptToolCall refEnv ''Thinking: {oops} Answer: 42'' = Inr None
   \<and> js_includes ''Thinking: {oops} Answer: 42'' ''Thinking:''
   \<and> js_includes ''Thinking: {oops} Answer: 42'' ''Answer:''
   \<and> processCoTResponse ''Thinking: {oops} Answer: 42'' initialState
        = Some (Inr \<lparr> thinking = ''{oops}'', answer = ''42'', hasStructuredResponse = True,
                      partial = None, stage = None \<rparr>,
                initialState\<lparr>lastThinkingContent := ''{oops}'', lastAnswerContent := ''42''\<rparr>)
   \<and> processPartialCoTResponse ''Thinking: {oops} Answer: 42''
        = Inr \<lparr> thinking = ''{oops}'', answer = ''42'', hasStructuredResponse = True,
                partial = Some False, stage = None \<rparr>\<close>
proof -
  have m: "matchBraces ''Thinking: {oops} Answer: 42'' = Some ''{oops}''"
    by (simp add: matchBraces_def)
  have p: "JSON_parse refEnv ''{oops}'' = Inl (SyntaxError ''Unexpected token in JSON'')"
    by (simp add: refEnv_def json_eval)
  have t: "js_includes ''Thinking: {oops} Answer: 42'' ''Thinking:''"
    and a: "js_includes ''Thinking: {oops} Answer: 42'' ''Answer:''"
    by (simp_all add: js_includes_def)
  have tm: "thinkingMatch ''Thinking: {oops} Answer: 42'' = Some '' {oops} ''"
    and am: "answerMatch ''Thinking: {oops} Answer: 42'' = Some '' 42''"
    by (simp_all add: thinkingMatch_def answerMatch_def)
  have tr: "trim '' {oops} '' = ''{oops}''" "trim '' 42'' = ''42''"
    by (simp_all add: trim_def isWhiteSpace_def)
  from classifiers_total [of refEnv "''Thinking: {oops} Answer: 42''" initialState] m p t a
  show ?thesis
    unfolding tm am by (simp add: tr)
qed

subsection \<open>Clearing the chat\<close>

text \<open>
  C10. \<open>clearChat\<close> empties the conversation and sets the token counter to 0; every other
  field of the controller's state keeps its value (the request to the UI is the update of
  the token display).
\<close>

theorem clearChat_frame:
  "chatHistory (clearChat st) = []
   \<and> totalTokens (clearChat st) = 0
   \<and> readSnippets (clearChat st) = readSnippets st
   \<and> readCache (clearChat st) = readCache st
   \<and> lastToolCall (clearChat st) = lastToolCall st
   \<and> lastToolCallCount (clearChat st) = lastToolCallCount st
   \<and> lastSearchResults (clearChat st) = lastSearchResults st
   \<and> highlightedResultIndices (clearChat st) = highlightedResultIndices st
   \<and> toolCallHistory (clearChat st) = toolCallHistory st
   \<and> settings (clearChat st) = settings st
   \<and> isThinking (clearChat st) = isThinking st
   \<and> lastThinkingContent (clearChat st) = lastThinkingContent st
   \<and> lastAnswerContent (clearChat st) = lastAnswerContent st
   \<and> autoReadInProgress (clearChat st) = autoReadInProgress st
   \<and> clock (clearChat st) = clock st
   \<and> ui (clearChat st) = ui st @ [UpdateTokenDisplay 0]"
  by (simp add: clearChat_def)

subsection \<open>Programs that keep a relation\<close>

lemma bindM_settle_Inr: "bindM (settle (Inr x)) f = f x"
  by (rule ext) (simp add: bindM_def settle_def)

lemma toolHandlers_own:
  "toolHandlers n env ptc (JString ''web_search'') args = web_search n env ptc args"
  "toolHandlers n env ptc (JString ''read_url'') args = read_url env args"
  "toolHandlers n env ptc (JString ''instant_answer'') args = instant_answer env args"
  by (simp_all add: toolHandlers_def bindM_settle_Inr)

lemma keepsI: "(\<And>st r st'. m st = Some (r, st') \<Longrightarrow> R st st') \<Longrightarrow> keeps R m"
  by (simp add: keeps_def)

lemma keepsD: "keeps R m \<Longrightarrow> m st = Some (r, st') \<Longrightarrow> R st st'"
  by (simp add: keeps_def)

lemma keeps_ret: "preorder_on_states R \<Longrightarrow> keeps R (ret x)"
  by (simp add: keeps_def ret_def preorder_on_states_def)

lemma keeps_throw: "preorder_on_states R \<Longrightarrow> keeps R (throw e)"
  by (simp add: keeps_def throw_def preorder_on_states_def)

lemma keeps_settle: "preorder_on_states R \<Longrightarrow> keeps R (settle outcome)"
  by (simp add: keeps_def settle_def preorder_on_states_def)

lemma keeps_outOfFuel: "keeps R outOfFuel"
  by (simp add: keeps_def outOfFuel_def)

lemma keeps_getState: "preorder_on_states R \<Longrightarrow> keeps R getState"
  by (simp add: keeps_def getState_def preorder_on_states_def)

lemma keeps_modify: "(\<And>st. R st (f st)) \<Longrightarrow> keeps R (modify f)"
  by (simp add: keeps_def modify_def)

lemma keeps_bindM:
  assumes "preorder_on_states R" and "keeps R m" and "\<And>x. keeps R (f x)"
  shows "keeps R (bindM m f)"
proof (rule keepsI)
  fix st r st'
  assume run: "bindM m f st = Some (r, st')"
  from assms(1) have trans: "\<And>a b c. R a b \<Longrightarrow> R b c \<Longrightarrow> R a c"
    unfolding preorder_on_states_def by blast
  show "R st st'"
  proof (cases "m st")
    case None
    with run show ?thesis by (simp add: bindM_def)
  next
    case (Some p)
    obtain o1 s1 where p: "p = (o1, s1)" by (cases p)
    have first: "R st s1" using assms(2) Some p by (auto dest: keepsD)
    show ?thesis
    proof (cases o1)
      case (Inl e)
      with run Some p have "st' = s1" by (simp add: bindM_def)
      with first show ?thesis by simp
    next
      case (Inr x)
      with run Some p have "f x s1 = Some (r, st')" by (simp add: bindM_def)
      with assms(3) have "R s1 st'" by (auto dest: keepsD)
      with first show ?thesis by (rule trans)
    qed
  qed
qed

lemma keeps_thenM:
  "preorder_on_states R \<Longrightarrow> keeps R m \<Longrightarrow> keeps R k \<Longrightarrow> keeps R (thenM m k)"
  unfolding thenM_def by (rule keeps_bindM)

lemma keeps_tryCatch:
  assumes "preorder_on_states R" and "keeps R m" and "\<And>e. keeps R (h e)"
  shows "keeps R (tryCatch m h)"
proof (rule keepsI)
  fix st r st'
  assume run: "tryCatch m h st = Some (r, st')"
  from assms(1) have trans: "\<And>a b c. R a b \<Longrightarrow> R b c \<Longrightarrow> R a c"
    unfolding preorder_on_states_def by blast
  show "R st st'"
  proof (cases "m st")
    case None
    with run show ?thesis by (simp add: tryCatch_def)
  next
    case (Some p)
    obtain o1 s1 where p: "p = (o1, s1)" by (cases p)
    have first: "R st s1" using assms(2) Some p by (auto dest: keepsD)
    show ?thesis
    proof (cases o1)
      case (Inl e)
      with run Some p have "h e s1 = Some (r, st')" by (simp add: tryCatch_def)
      with assms(3) have "R s1 st'" by (auto dest: keepsD)
      with first show ?thesis by (rule trans)
    next
      case (Inr x)
      with run Some p have "st' = s1" by (simp add: tryCatch_def)
      with first show ?thesis by simp
    qed
  qed
qed

lemma keeps_tryFinally:
  assumes "preorder_on_states R" and "keeps R m" and "keeps R f"
  shows "keeps R (tryFinally m f)"
proof (rule keepsI)
  fix st r st'
  assume run: "tryFinally m f st = Some (r, st')"
  from assms(1) have trans: "\<And>a b c. R a b \<Longrightarrow> R b c \<Longrightarrow> R a c"
    unfolding preorder_on_states_def by blast
  show "R st st'"
  proof (cases "m st")
    case None
    with run show ?thesis by (simp add: tryFinally_def)
  next
    case (Some p)
    obtain o1 s1 where p: "p = (o1, s1)" by (cases p)
    have first: "R st s1" using assms(2) Some p by (auto dest: keepsD)
    from run Some p obtain o2 where "f s1 = Some (o2, st')"
      by (auto simp add: tryFinally_def split: option.splits sum.splits)
    with assms(3) have "R s1 st'" by (auto dest: keepsD)
    with first show ?thesis by (rule trans)
  qed
qed

lemma keeps_seqM:
  assumes "preorder_on_states R" and "\<And>m. m \<in> set ms \<Longrightarrow> keeps R m"
  shows "keeps R (seqM ms)"
  using assms(2)
proof (induction ms)
  case Nil
  show ?case by (simp add: keeps_ret assms(1))
next
  case (Cons m ms)
  then show ?case by (simp add: keeps_thenM assms(1))
qed

lemma keeps_whenM: "preorder_on_states R \<Longrightarrow> keeps R m \<Longrightarrow> keeps R (whenM b m)"
  by (simp add: whenM_def keeps_ret)

lemma keeps_await:
  "preorder_on_states R \<Longrightarrow> (\<And>st. R st (st\<lparr>clock := Suc (clock st)\<rparr>)) \<Longrightarrow> keeps R (await f)"
  by (simp add: keeps_def await_def)

lemma keeps_uiDo: "(\<And>st e. R st (st\<lparr>ui := ui st @ [e]\<rparr>)) \<Longrightarrow> keeps R (uiDo e)"
  by (simp add: uiDo_def keeps_modify)

subsection \<open>The conversation only grows\<close>

lemma appendsOnly_refl: "appendsOnly st st"
  by (simp add: appendsOnly_def)

lemma appendsOnly_same: "chatHistory st' = chatHistory st \<Longrightarrow> appendsOnly st st'"
  by (simp add: appendsOnly_def)

lemma appendsOnly_trans: "appendsOnly a b \<Longrightarrow> appendsOnly b c \<Longrightarrow> appendsOnly a c"
  unfolding appendsOnly_def by auto

lemma po: "preorder_on_states appendsOnly"
  unfolding preorder_on_states_def using appendsOnly_refl appendsOnly_trans by blast

lemma ao_modify: "(\<And>st. chatHistory (f st) = chatHistory st) \<Longrightarrow> keeps appendsOnly (modify f)"
  by (rule keeps_modify) (simp add: appendsOnly_same)

lemma ao_uiDo: "keeps appendsOnly (uiDo e)"
  by (rule keeps_uiDo) (simp add: appendsOnly_same)

lemma ao_pushTurn: "r \<noteq> System \<Longrightarrow> keeps appendsOnly (pushTurn r c)"
  unfolding pushTurn_def by (rule keeps_modify) (simp add: appendsOnly_def)

lemma ao_await: "keeps appendsOnly (await f)"
  by (rule keeps_await [OF po]) (simp add: appendsOnly_same)


lemmas ao_intros =
  keeps_ret [OF po] keeps_throw [OF po] keeps_settle [OF po] keeps_outOfFuel
  keeps_getState [OF po] keeps_bindM [OF po] keeps_thenM [OF po] keeps_tryCatch [OF po]
  keeps_tryFinally [OF po] keeps_whenM [OF po] ao_modify ao_uiDo ao_pushTurn ao_await

lemma ao_processCoTResponse: "keeps appendsOnly (processCoTResponse response)"
  unfolding processCoTResponse_def Let_def by (auto intro!: ao_intros)

lemma ao_nullArgs: "keeps appendsOnly nullArgs"
  unfolding nullArgs_def by (rule keeps_throw [OF po])

lemma ao_replyContent: "keeps appendsOnly (replyContent res)"
  unfolding replyContent_def by (auto intro!: ao_intros split: option.splits)

lemma ao_geminiText: "keeps appendsOnly (geminiText res)"
  unfolding geminiText_def by (auto intro!: ao_intros split: option.splits)

lemma ao_read_url: "keeps appendsOnly (read_url env args)"
  unfolding read_url_def Let_def
  by (auto intro!: ao_intros ao_nullArgs split: option.splits)

lemma ao_instant_answer: "keeps appendsOnly (instant_answer env args)"
  unfolding instant_answer_def Let_def
  by (auto intro!: ao_intros ao_nullArgs split: option.splits)

lemma ao_summarizeBatches:
  "keeps appendsOnly (summarizeBatches env model round_no totalBatches i batches acc)"
  by (induction batches arbitrary: i acc) (auto intro!: ao_intros ao_replyContent)

lemma ao_summarizeSnippets: "keeps appendsOnly (summarizeSnippets n env snippetsArg round_no)"
proof (induction n arbitrary: snippetsArg round_no)
  case 0
  show ?case by (simp add: keeps_outOfFuel)
next
  case (Suc n)
  show ?case
    unfolding summarizeSnippets.simps Let_def
    by (auto intro!: ao_intros ao_replyContent ao_summarizeBatches Suc.IH split: option.splits)
qed

lemma ao_streamCallback: "keeps appendsOnly (streamCallback fullText)"
  unfolding streamCallback_def by (auto intro!: ao_intros)

lemma ao_seqM: "(\<And>m. m \<in> set ms \<Longrightarrow> keeps appendsOnly m) \<Longrightarrow> keeps appendsOnly (seqM ms)"
  by (rule keeps_seqM [OF po])

lemma ao_awaitStream: "keeps appendsOnly (awaitStream request)"
  unfolding awaitStream_def
  by (auto intro!: ao_intros ao_seqM ao_streamCallback split: prod.splits)

lemma ao_finishStreamedReply: "keeps appendsOnly (finishStreamedReply env model fullReply)"
  unfolding finishStreamedReply_def by (auto intro!: ao_intros ao_processCoTResponse)

lemma ao_finishReply: "keeps appendsOnly (finishReply reply)"
  unfolding finishReply_def by (auto intro!: ao_intros ao_processCoTResponse)

lemma ao_showStreamed: "keeps appendsOnly (showStreamed streamed)"
  unfolding showStreamed_def by (auto intro!: ao_intros ao_seqM)

lemma ao_snippetOfLastTurn: "keeps appendsOnly (snippetOfLastTurn key)"
  unfolding snippetOfLastTurn_def Let_def by (auto intro!: ao_intros)

lemma ao_askIfMoreNeeded: "keeps appendsOnly (askIfMoreNeeded env url snippet)"
  unfolding askIfMoreNeeded_def Let_def by (auto intro!: ao_intros ao_replyContent)

lemma ao_deepReadLoop:
  assumes "\<And>c. keeps appendsOnly (ptc c)"
  shows "keeps appendsOnly (deepReadLoop n env ptc url maxChunks chunkSize maxTotalLength v)"
proof (induction n arbitrary: v)
  case 0
  show ?case by (simp add: keeps_outOfFuel)
next
  case (Suc n)
  show ?case
    unfolding deepReadLoop.simps
    by (auto intro!: ao_intros ao_snippetOfLastTurn ao_askIfMoreNeeded assms Suc.IH
        split: option.splits)
qed

lemma ao_deepReadUrl:
  assumes "\<And>c. keeps appendsOnly (ptc c)"
  shows "keeps appendsOnly (deepReadUrl n env ptc url maxChunks chunkSize maxTotalLength)"
  unfolding deepReadUrl_def by (auto intro!: ao_intros ao_deepReadLoop assms)

lemma ao_readEachUrl:
  assumes "\<And>c. keeps appendsOnly (ptc c)"
  shows "keeps appendsOnly (readEachUrl urls n env ptc i nUrls)"
  by (induction urls arbitrary: i) (auto intro!: ao_intros ao_deepReadUrl assms)

lemma ao_autoRead:
  assumes "\<And>c. keeps appendsOnly (ptc c)"
  shows "keeps appendsOnly (autoReadAndSummarizeFromSuggestion n env ptc aiReply)"
  unfolding autoReadAndSummarizeFromSuggestion_def Let_def
  by (auto intro!: ao_intros ao_readEachUrl ao_summarizeSnippets assms split: option.splits)

lemma ao_suggest:
  assumes "\<And>c. keeps appendsOnly (ptc c)"
  shows "keeps appendsOnly (suggestResultsToRead n env ptc results query)"
  unfolding suggestResultsToRead_def Let_def
  by (auto intro!: ao_intros ao_autoRead ao_replyContent assms)

lemma ao_web_search:
  assumes "\<And>c. keeps appendsOnly (ptc c)"
  shows "keeps appendsOnly (web_search n env ptc args)"
  unfolding web_search_def
  by (auto intro!: ao_intros ao_suggest ao_showStreamed ao_nullArgs assms
      split: option.splits prod.splits)

lemma ao_toolHandlers:
  assumes "\<And>c. keeps appendsOnly (ptc c)"
  shows "keeps appendsOnly (toolHandlers n env ptc t args)"
  unfolding toolHandlers_def
  by (auto intro!: ao_intros ao_web_search ao_read_url ao_instant_answer assms
      split: option.splits)

lemma ao_handleOpenAIMessage:
  assumes "\<And>c. keeps appendsOnly (ptc c)"
  shows "keeps appendsOnly (handleOpenAIMessage env ptc model msg)"
  unfolding handleOpenAIMessage_def
  by (auto intro!: ao_intros ao_awaitStream ao_finishStreamedReply ao_finishReply
      ao_replyContent assms split: option.splits)

lemma ao_handleGeminiMessage:
  assumes "\<And>c. keeps appendsOnly (ptc c)"
  shows "keeps appendsOnly (handleGeminiMessage env ptc model msg)"
  unfolding handleGeminiMessage_def
  by (auto intro!: ao_intros ao_awaitStream ao_finishStreamedReply ao_finishReply
      ao_geminiText assms split: option.splits)

lemma ao_continueReasoning:
  assumes "\<And>c. keeps appendsOnly (ptc c)"
  shows "keeps appendsOnly (continueReasoning env ptc)"
  unfolding continueReasoning_def
  by (auto intro!: ao_intros ao_handleOpenAIMessage ao_handleGeminiMessage assms)

lemma ao_processToolCall: "keeps appendsOnly (processToolCall n env c)"
proof (induction n arbitrary: c)
  case 0
  show ?case by (simp add: keeps_outOfFuel)
next
  case (Suc n)
  show ?case
    unfolding processToolCall.simps
    by (auto intro!: ao_intros ao_toolHandlers ao_continueReasoning Suc.IH
        simp add: loopProtection_def)
qed

lemma ao_sendMessage: "keeps appendsOnly (sendMessage n env)"
  unfolding sendMessage_def Let_def
  by (auto intro!: ao_intros ao_handleOpenAIMessage ao_handleGeminiMessage ao_processToolCall)

subsection \<open>Reading a page\<close>

lemma validUrl_not_null: "validUrl args = Some u \<Longrightarrow> args \<noteq> JNull"
  by (auto simp add: validUrl_def)

lemma read_url_success:
  assumes "validUrl args = Some u" and "readUrl env (clock st) u = Inr page"
  shows "read_url env args st =
     Some (Inr (),
       st\<lparr> clock := Suc (clock st),
           ui := ui st @ [ShowSpinner (''Reading content from '' @ u @ ''...''),
                          AddReadResult u
                            (js_slice page (readStart args) (num_add (readStart args) (readLength args)))
                            (num_less (num_add (readStart args) (readLength args))
                               (Finite (of_nat (length page))))]
                   @ (if 2 \<le> Suc (length (readSnippets st)) then [AddSummarizeButton] else [])
                   @ [HideSpinner],
           chatHistory := chatHistory st @
             [readTurn u (js_slice page (readStart args) (num_add (readStart args) (readLength args)))
                (num_less (num_add (readStart args) (readLength args))
                   (Finite (of_nat (length page))))],
           readSnippets := readSnippets st
              @ [js_slice page (readStart args) (num_add (readStart args) (readLength args))] \<rparr>)"
  using assms validUrl_not_null [OF assms(1)]
  by (simp add: read_url_def prog_defs Let_def readTurn_def)



lemma take_drop_clamped:
  "take (min e (length page) - min f (length page)) (drop (min f (length page)) page)
     = take (e - f) (drop f page)"
proof (cases "f \<le> length page")
  case True
  show ?thesis
  proof (cases "e \<le> length page")
    case True
    with \<open>f \<le> length page\<close> show ?thesis by (simp add: min_def)
  next
    case False
    with \<open>f \<le> length page\<close> show ?thesis by (simp add: min_def)
  qed
next
  case False
  then show ?thesis by simp
qed

lemma js_slice_finite:
  assumes "0 \<le> s" and "0 \<le> e"
  shows "js_slice page (Finite s) (Finite e)
       = take (nat \<lfloor>e\<rfloor> - nat \<lfloor>s\<rfloor>) (drop (nat \<lfloor>s\<rfloor>) page)"
proof -
  from assms have fs: "\<not> s < 0" "\<not> \<lfloor>s\<rfloor> < 0" and fe: "\<not> e < 0" "\<not> \<lfloor>e\<rfloor> < 0"
    by simp_all
  have i: "nat (min \<lfloor>s\<rfloor> (int (length page))) = min (nat \<lfloor>s\<rfloor>) (length page)"
    and j: "nat (min \<lfloor>e\<rfloor> (int (length page))) = min (nat \<lfloor>e\<rfloor>) (length page)"
    using fs fe by (simp_all add: min_def) linarith+
  show ?thesis
    unfolding js_slice_def Let_def sliceIndex.simps if_not_P [OF fs(1)] if_not_P [OF fs(2)]
      if_not_P [OF fe(1)] if_not_P [OF fe(2)] i j
    by (rule take_drop_clamped)
qed

lemma js_slice_nat:
  "js_slice page (Finite (of_nat a)) (num_add (Finite (of_nat a)) (Finite (of_nat b)))
     = take b (drop a page)"
proof -
  have "js_slice page (Finite (of_nat a)) (Finite (of_nat (a + b)))
      = take (nat \<lfloor>(of_nat (a + b) :: rat)\<rfloor> - nat \<lfloor>(of_nat a :: rat)\<rfloor>)
          (drop (nat \<lfloor>(of_nat a :: rat)\<rfloor>) page)"
    by (rule js_slice_finite) simp_all
  then show ?thesis by (simp add: nat_int_add)
qed

lemma hasMore_nat:
  "num_less (num_add (Finite (of_nat a)) (Finite (of_nat b))) (Finite (of_nat n)) = (a + b < n)"
proof -
  have "(of_nat a + of_nat b < (of_nat n :: rat)) = (a + b < n)"
    by (metis of_nat_add of_nat_less_iff)
  then show ?thesis by simp
qed



lemma num_ge_zero_cases:
  assumes "num_ge a (Finite 0)"
  obtains s where "a = Finite s" and "0 \<le> s" | "a = PosInfinity"
  using assms by (cases a) (auto simp add: num_ge_def)

lemma num_pos_cases:
  assumes "num_less (Finite 0) b"
  obtains l where "b = Finite l" and "0 < l" | "b = PosInfinity"
  using assms by (cases b) auto







subsection \<open>The loop protection\<close>

























lemma processToolCall_abort:
  assumes "lastToolCall st = Some (callSignature env c)" and "3 \<le> lastToolCallCount st"
  shows "processToolCall (Suc n) env c st =
     Some (Inr (), st\<lparr>lastToolCallCount := lastToolCallCount st + 1,
                      ui := ui st @ [AddMessage ''ai'' loopDetectedMessage]\<rparr>)"
  using assms
  by (simp add: prog_defs loopProtection_def MAX_TOOL_CALL_REPEAT_def)

lemma processToolCall_admit:
  assumes "\<not> (lastToolCall st = Some (callSignature env c) \<and> 3 \<le> lastToolCallCount st)"
  shows "processToolCall (Suc n) env c st =
     seqM [toolHandlers n env (processToolCall n env) (tool c) (arguments c),
           whenM (\<not> skipContinue c) (continueReasoning env (processToolCall n env))]
       (admitted env c st)"
proof (cases "lastToolCall st = Some (callSignature env c)")
  case True
  with assms have "lastToolCallCount st < 3" by simp
  with True show ?thesis
    by (simp add: thenM_def bindM_def modify_def getState_def loopProtection_def
        MAX_TOOL_CALL_REPEAT_def admitted_def)
next
  case False
  then show ?thesis
    by (simp add: thenM_def bindM_def modify_def getState_def loopProtection_def
        MAX_TOOL_CALL_REPEAT_def admitted_def)
qed

lemma admitted_fields:
  "lastToolCall (admitted env c st) = Some (callSignature env c)"
  "lastToolCallCount (admitted env c st)
     = (if lastToolCall st = Some (callSignature env c) then lastToolCallCount st + 1 else 1)"
  "toolCallHistory (admitted env c st)
     = toolCallHistory st @ [\<lparr> entry_tool = tool c, entry_args = arguments c,
                                 entry_timestamp = now env (clock st) \<rparr>]"
  by (simp_all add: admitted_def loopProtection_def)


subsection \<open>Calls that fail the argument check\<close>

lemma invalid_handler:
  assumes "invalidCall c"
  shows "toolHandlers n env ptc (tool c) (arguments c) st
       = Some (Inr (), st\<lparr>ui := ui st @ [AddMessage ''ai'' (invalidMessage c)]\<rparr>)"
  using assms
  by (auto simp add: invalidCall_def invalidMessage_def toolHandlers_own read_url_def
      web_search_def instant_answer_def uiDo_def modify_def)

lemma invalid_admitted:
  assumes "invalidCall c"
    and "\<not> (lastToolCall st = Some (callSignature env c) \<and> 3 \<le> lastToolCallCount st)"
  shows "processToolCall (Suc n) env c st
       = whenM (\<not> skipContinue c) (continueReasoning env (processToolCall n env))
           ((admitted env c st)\<lparr>ui := ui st @ [AddMessage ''ai'' (invalidMessage c)]\<rparr>)"
proof -
  have u: "ui (admitted env c st) = ui st"
    by (simp add: admitted_def loopProtection_def)
  show ?thesis
    unfolding processToolCall_admit [OF assms(2)]
    by (cases "skipContinue c")
      (simp_all add: thenM_def bindM_def invalid_handler [OF assms(1)] u whenM_def ret_def
        split: option.splits sum.splits prod.splits)
qed

lemma badCall_invalid: "invalidCall badCall"
  by (simp add: invalidCall_def badCall_def validUrl_def)

lemma badCall_signature:
  \<open>callSignature refEnv badCall = ''{"tool":"read_url","args":{"url":"ftp://example.com"}}''\<close>
  by (simp add: callSignature_def badCall_def refEnv_def quote_def escape_char_def)

text \<open>
  C3, as stated: a call that fails the argument check does not count toward the loop
  guard, no signature is recorded and the counter is not advanced. It fails: the loop
  protection runs before the handler checks the arguments. Here a read of an \<open>ftp\<close> URL,
  first call of a session, leaves its signature recorded, the counter at 1 and an entry in
  the audit log.
\<close>

theorem invalid_call_recorded_counterexample:
  \<open>invalidCall badCall
   \<and> lastToolCall initialState = None \<and> lastToolCallCount initialState = 0
   \<and> processToolCall 1 refEnv badCall initialState
      = Some (Inr (),
          initialState\<lparr>
            lastToolCall := Some ''{"tool":"read_url","args":{"url":"ftp://example.com"}}'',
            lastToolCallCount := 1,
            toolCallHistory :=
              [\<lparr> entry_tool = JString ''read_url'',
                  entry_args = JObject [(''url'', JString ''ftp://example.com'')],
                  entry_timestamp = ''2025-01-01T00:00:00.000Z'' \<rparr>],
            ui := [AddMessage ''ai'' ''Error: Invalid read_url argument.'']\<rparr>)\<close>
proof -
  have g: "\<not> (lastToolCall initialState = Some (callSignature refEnv badCall)
            \<and> 3 \<le> lastToolCallCount initialState)"
    by (simp add: initialState_def)
  have sk: "skipContinue badCall" by (simp add: badCall_def)
  have run: "processToolCall (Suc 0) refEnv badCall initialState
      = Some (Inr (), (admitted refEnv badCall initialState)
            \<lparr>ui := ui initialState @ [AddMessage ''ai'' (invalidMessage badCall)]\<rparr>)"
    using invalid_admitted [OF badCall_invalid g, of 0] sk by (simp add: whenM_def ret_def)
  have st: \<open>(admitted refEnv badCall initialState)
            \<lparr>ui := ui initialState @ [AddMessage ''ai'' (invalidMessage badCall)]\<rparr>
      = initialState\<lparr>
            lastToolCall := Some ''{"tool":"read_url","args":{"url":"ftp://example.com"}}'',
            lastToolCallCount := 1,
            toolCallHistory :=
              [\<lparr> entry_tool = JString ''read_url'',
                  entry_args = JObject [(''url'', JString ''ftp://example.com'')],
                  entry_timestamp = ''2025-01-01T00:00:00.000Z'' \<rparr>],
            ui := [AddMessage ''ai'' ''Error: Invalid read_url argument.'']\<rparr>\<close>
    unfolding admitted_def loopProtection_def badCall_signature
    by (simp add: initialState_def badCall_def invalidMessage_def refEnv_def)
  show ?thesis
    unfolding One_nat_def run st using badCall_invalid by (simp add: initialState_def)
qed

text \<open>
  C3, amended: when the arguments of a call fail the check of its handler, the handler
  returns after showing the error message of the check: the tool is not invoked (the
  clock of the outside world stands still) and no turn is appended. The call has passed
  the loop protection before: its signature is recorded, the counter is raised or set to
  1, and the call is logged; with the continuation suppressed \<open>processToolCall\<close> returns
  in that state, otherwise the continuation follows. A fourth consecutive identical call
  is aborted by the loop protection before its arguments are checked.
\<close>

theorem invalid_call_counts:
  "(invalidCall c \<longrightarrow>
      toolHandlers n env ptc (tool c) (arguments c) st
        = Some (Inr (), st\<lparr>ui := ui st @ [AddMessage ''ai'' (invalidMessage c)]\<rparr>))
   \<and> (invalidCall c
        \<and> \<not> (lastToolCall st = Some (callSignature env c) \<and> 3 \<le> lastToolCallCount st) \<longrightarrow>
      processToolCall (Suc n) env c st
        = whenM (\<not> skipContinue c) (continueReasoning env (processToolCall n env))
            ((admitted env c st)\<lparr>ui := ui st @ [AddMessage ''ai'' (invalidMessage c)]\<rparr>)
      \<and> lastToolCall (admitted env c st) = Some (callSignature env c)
      \<and> lastToolCallCount (admitted env c st)
           = (if lastToolCall st = Some (callSignature env c) then lastToolCallCount st + 1 else 1)
      \<and> toolCallHistory (admitted env c st)
           = toolCallHistory st @ [\<lparr> entry_tool = tool c, entry_args = arguments c,
                                       entry_timestamp = now env (clock st) \<rparr>]
      \<and> chatHistory (admitted env c st) = chatHistory st
      \<and> clock (admitted env c st) = clock st)
   \<and> (invalidCall c \<and> skipContinue c
        \<and> \<not> (lastToolCall st = Some (callSignature env c) \<and> 3 \<le> lastToolCallCount st) \<longrightarrow>
      processToolCall (Suc n) env c st
        = Some (Inr (),
            (admitted env c st)\<lparr>ui := ui st @ [AddMessage ''ai'' (invalidMessage c)]\<rparr>))
   \<and> (invalidCall c \<and> lastToolCall st = Some (callSignature env c) \<and> 3 \<le> lastToolCallCount st \<longrightarrow>
      processToolCall (Suc n) env c st
        = Some (Inr (), st\<lparr>lastToolCallCount := lastToolCallCount st + 1,
                            ui := ui st @ [AddMessage ''ai'' loopDetectedMessage]\<rparr>))"
proof -
  have a: "invalidCall c \<longrightarrow>
      toolHandlers n env ptc (tool c) (arguments c) st
        = Some (Inr (), st\<lparr>ui := ui st @ [AddMessage ''ai'' (invalidMessage c)]\<rparr>)"
    using invalid_handler by blast
  have frame: "chatHistory (admitted env c st) = chatHistory st"
    "clock (admitted env c st) = clock st"
    by (simp_all add: admitted_def loopProtection_def)
  have b: "invalidCall c
        \<and> \<not> (lastToolCall st = Some (callSignature env c) \<and> 3 \<le> lastToolCallCount st) \<longrightarrow>
      processToolCall (Suc n) env c st
        = whenM (\<not> skipContinue c) (continueReasoning env (processToolCall n env))
            ((admitted env c st)\<lparr>ui := ui st @ [AddMessage ''ai'' (invalidMessage c)]\<rparr>)
      \<and> lastToolCall (admitted env c st) = Some (callSignature env c)
      \<and> lastToolCallCount (admitted env c st)
           = (if lastToolCall st = Some (callSignature env c) then lastToolCallCount st + 1 else 1)
      \<and> toolCallHistory (admitted env c st)
           = toolCallHistory st @ [\<lparr> entry_tool = tool c, entry_args = arguments c,
                                       entry_timestamp = now env (clock st) \<rparr>]
      \<and> chatHistory (admitted env c st) = chatHistory st
      \<and> clock (admitted env c st) = clock st"
    using invalid_admitted admitted_fields frame by blast
  have c: "invalidCall c \<and> skipContinue c
        \<and> \<not> (lastToolCall st = Some (callSignature env c) \<and> 3 \<le> lastToolCallCount st) \<longrightarrow>
      processToolCall (Suc n) env c st
        = Some (Inr (),
            (admitted env c st)\<lparr>ui := ui st @ [AddMessage ''ai'' (invalidMessage c)]\<rparr>)"
    using invalid_admitted [of c st env n] by (simp add: whenM_def ret_def)
  have d: "invalidCall c \<and> lastToolCall st = Some (callSignature env c) \<and> 3 \<le> lastToolCallCount st \<longrightarrow>
      processToolCall (Suc n) env c st
        = Some (Inr (), st\<lparr>lastToolCallCount := lastToolCallCount st + 1,
                            ui := ui st @ [AddMessage ''ai'' loopDetectedMessage]\<rparr>)"
    using processToolCall_abort by blast
  from a b c d show ?thesis by blast
qed

theorem invalid_call_counts_witness:
  "invalidCall badCall \<and> skipContinue badCall
   \<and> lastToolCall initialState \<noteq> Some (callSignature refEnv badCall)
   \<and> processToolCall 1 refEnv badCall initialState
      = Some (Inr (),
          (admitted refEnv badCall initialState)
            \<lparr>ui := ui initialState @ [AddMessage ''ai'' ''Error: Invalid read_url argument.'']\<rparr>)
   \<and> lastToolCallCount (admitted refEnv badCall initialState) = 1
   \<and> clock (admitted refEnv badCall initialState) = clock initialState"
proof -
  have g: "lastToolCall initialState \<noteq> Some (callSignature refEnv badCall)"
    by (simp add: initialState_def)
  have sk: "skipContinue badCall" by (simp add: badCall_def)
  have g': "\<not> (lastToolCall initialState = Some (callSignature refEnv badCall)
             \<and> 3 \<le> lastToolCallCount initialState)"
    using g by simp
  have m: "invalidMessage badCall = ''Error: Invalid read_url argument.''"
    by (simp add: invalidMessage_def badCall_def)
  from invalid_call_counts [of badCall 0 refEnv "processToolCall 0 refEnv" initialState]
    badCall_invalid g' sk
  have "processToolCall (Suc 0) refEnv badCall initialState
      = Some (Inr (),
          (admitted refEnv badCall initialState)
            \<lparr>ui := ui initialState @ [AddMessage ''ai'' (invalidMessage badCall)]\<rparr>)
    \<and> lastToolCallCount (admitted refEnv badCall initialState)
           = (if lastToolCall initialState = Some (callSignature refEnv badCall)
              then lastToolCallCount initialState + 1 else 1)
    \<and> clock (admitted refEnv badCall initialState) = clock initialState"
    by blast
  with g badCall_invalid sk show ?thesis
    unfolding m One_nat_def by simp
qed

subsection \<open>Deep read\<close>

lemma split_chr_nonempty: "split_chr sep s \<noteq> []"
  by (induction s) (auto split: list.splits)

lemma join_split_chr: "join [sep] (split_chr sep s) = s"
proof (induction s)
  case Nil
  show ?case by simp
next
  case (Cons c cs)
  obtain p ps where sp: "split_chr sep cs = p # ps"
    using split_chr_nonempty [of sep cs] by (cases "split_chr sep cs") auto
  show ?case
  proof (cases "c = sep")
    case True
    with Cons sp show ?thesis by simp
  next
    case False
    with Cons sp show ?thesis by (cases ps) auto
  qed
qed

lemma split_chr_first_line:
  "sep \<notin> set a \<Longrightarrow> split_chr sep (a @ sep # b) = a # split_chr sep b"
proof (induction a)
  case Nil
  show ?case by simp
next
  case (Cons c cs)
  then show ?case by auto
qed

lemma snippet_of_read_turn:
  assumes "CHR 0x0A \<notin> set u"
  shows "join ''\<newline>'' (tl (split_chr (CHR 0x0A) (''Read content from '' @ u @ '':\<newline>'' @ body))) = body"
proof -
  have "''Read content from '' @ u @ '':\<newline>'' @ body
      = (''Read content from '' @ u @ '':'') @ CHR 0x0A # body"
    by simp
  moreover have "CHR 0x0A \<notin> set (''Read content from '' @ u @ '':'')"
    using assms by simp
  ultimately have "split_chr (CHR 0x0A) (''Read content from '' @ u @ '':\<newline>'' @ body)
      = (''Read content from '' @ u @ '':'') # split_chr (CHR 0x0A) body"
    using split_chr_first_line by metis
  then show ?thesis
    using join_split_chr [of "CHR 0x0A" body] by simp
qed

lemma httpUrl_nonempty: "httpUrl url \<Longrightarrow> url \<noteq> []"
  by (auto simp add: httpUrl_def)

lemma deepReadCall_valid:
  assumes "httpUrl url"
  shows "validUrl (arguments (deepReadCall url start chunkSize)) = Some url"
  using assms httpUrl_nonempty [OF assms]
  by (auto simp add: validUrl_def deepReadCall_def httpUrl_def)

lemma deepReadCall_range:
  "0 < chunkSize \<Longrightarrow>
     readStart (arguments (deepReadCall url start chunkSize)) = Finite (of_nat start)
   \<and> readLength (arguments (deepReadCall url start chunkSize)) = Finite (of_nat chunkSize)"
  by (simp add: readStart_def readLength_def deepReadCall_def num_ge_def)

lemma processToolCall_deepRead:
  assumes "httpUrl url" and "readUrl env (clock st) url = Inr page" and "0 < chunkSize"
    and "\<not> (lastToolCall st = Some (callSignature env (deepReadCall url start chunkSize))
            \<and> 3 \<le> lastToolCallCount st)"
  shows "processToolCall (Suc m) env (deepReadCall url start chunkSize) st
       = Some (Inr (), afterRead env url page start chunkSize st)"
proof -
  let ?c = "deepReadCall url start chunkSize"
  have clk: "clock (admitted env ?c st) = clock st"
    by (simp add: admitted_def loopProtection_def)
  have rd: "readUrl env (clock (admitted env ?c st)) url = Inr page"
    using assms(2) clk by simp
  have t: "tool ?c = JString ''read_url''" and sk: "skipContinue ?c"
    by (simp_all add: deepReadCall_def)
  note run = read_url_success [OF deepReadCall_valid [OF assms(1)] rd, of start chunkSize]
  have rng: "readStart (arguments ?c) = Finite (of_nat start)"
    "readLength (arguments ?c) = Finite (of_nat chunkSize)"
    using deepReadCall_range [OF assms(3)] by simp_all
  show ?thesis
    unfolding processToolCall_admit [OF assms(4)]
    using run
    by (simp add: toolHandlers_own t sk rng js_slice_nat hasMore_nat thenM_def bindM_def
        whenM_def ret_def afterRead_def admitted_def loopProtection_def del: num_add.simps)
qed

lemma askIfMoreNeeded_yes:
  assumes "alwaysYes env"
  shows "\<exists>reply. askIfMoreNeeded env url snippet st
            = Some (Inr (Some reply), st\<lparr>clock := Suc (clock st)\<rparr>)
          \<and> startsWith reply ''yes''"
proof -
  from assms have gpt: "startsWith (selectedModel env (clock st)) ''gpt''"
    by (simp add: alwaysYes_def)
  let ?msgs = "[Turn System ''You are an assistant that decides if more content is needed from a web page.'',
               Turn User (deepReadPrompt url snippet)]"
  from assms obtain res c where
    res: "sendOpenAIRequest env (clock st) (selectedModel env (clock st)) ?msgs = Inr res"
    and c: "oa_content res = Some c" and yes: "startsWith (toLowerCase (trim c)) ''yes''"
    unfolding alwaysYes_def by blast
  have "askIfMoreNeeded env url snippet st
      = Some (Inr (Some (toLowerCase (trim c))), st\<lparr>clock := Suc (clock st)\<rparr>)"
    using gpt res c
    by (simp add: askIfMoreNeeded_def Let_def prog_defs replyContent_def)
  with yes show ?thesis by blast
qed

lemma snippetOfLastTurn_afterRead:
  assumes "httpUrl url"
  shows "snippetOfLastTurn key (afterRead env url page start chunkSize st)
       = Some (Inr (chunkText page start chunkSize),
           (afterRead env url page start chunkSize st)
             \<lparr>readCache := (readCache st)(key \<mapsto> chunkText page start chunkSize)\<rparr>)"
proof -
  from assms have nl: "CHR 0x0A \<notin> set url" by (simp add: httpUrl_def)
  have last_turn: "last (chatHistory (afterRead env url page start chunkSize st))
      = Turn Assistant (''Read content from '' @ url @ '':\<newline>'' @ chunkText page start chunkSize)"
    by (simp add: afterRead_def readTurn_def chunkText_def)
  have ne: "chatHistory (afterRead env url page start chunkSize st) \<noteq> []"
    by (simp add: afterRead_def)
  have rc: "readCache (afterRead env url page start chunkSize st) = readCache st"
    by (simp add: afterRead_def admitted_def loopProtection_def)
  show ?thesis
    unfolding snippetOfLastTurn_def
    by (simp add: prog_defs Let_def last_turn ne rc snippet_of_read_turn [OF nl]
        del: append.simps startsWith.simps)
      (simp add: startsWith_iff)
qed

lemma deepReadLoop_step:
  assumes "alwaysYes env" and "servesPage env url page" and "httpUrl url" and "0 < chunkSize"
    and "shouldContinue v" and "chunkCount v < maxChunks" and "totalLength v < maxTotalLength"
    and "readCache st (cacheKey url (start_offset v) chunkSize) = None"
    and "\<not> (lastToolCall st = Some (callSignature env (deepReadCall url (start_offset v) chunkSize))
            \<and> 3 \<le> lastToolCallCount st)"
    and "chunkText page (start_offset v) chunkSize \<noteq> []"
  shows "deepReadLoop (Suc n) env (processToolCall (Suc m) env) url maxChunks chunkSize
           maxTotalLength v st
       = deepReadLoop n env (processToolCall (Suc m) env) url maxChunks chunkSize maxTotalLength
           (nextVars v (chunkText page (start_offset v) chunkSize) chunkSize maxTotalLength)
           (afterChunk env url page (start_offset v) chunkSize st)"
proof -
  let ?start = "start_offset v"
  let ?key = "cacheKey url ?start chunkSize"
  let ?snip = "chunkText page ?start chunkSize"
  let ?s1 = "afterRead env url page ?start chunkSize st"
  let ?s2 = "?s1\<lparr>readCache := (readCache st)(?key \<mapsto> ?snip)\<rparr>"
  from assms(2) have rd: "readUrl env (clock st) url = Inr page"
    by (simp add: servesPage_def)
  have call: "processToolCall (Suc m) env (deepReadCall url ?start chunkSize) st = Some (Inr (), ?s1)"
    by (rule processToolCall_deepRead [OF assms(3) rd assms(4) assms(9)])
  have fetch: "bindM getState (\<lambda>st.
             case readCache st ?key of
               Some cached \<Rightarrow> ret cached
             | None \<Rightarrow>
                 thenM (processToolCall (Suc m) env (deepReadCall url ?start chunkSize))
                       (snippetOfLastTurn ?key)) st
      = Some (Inr ?snip, ?s2)"
    using assms(8) call snippetOfLastTurn_afterRead [OF assms(3)]
    by (simp add: bindM_def getState_def thenM_def)
  from askIfMoreNeeded_yes [OF assms(1), of url ?snip ?s2]
  obtain reply where ask: "askIfMoreNeeded env url ?snip ?s2
        = Some (Inr (Some reply), ?s2\<lparr>clock := Suc (clock ?s2)\<rparr>)"
    and yes: "startsWith reply ''yes''"
    by blast
  have s3: "?s2\<lparr>clock := Suc (clock ?s2)\<rparr> = afterChunk env url page ?start chunkSize st"
    by (simp add: afterChunk_def afterRead_def)
  have ask': "askIfMoreNeeded env url ?snip ?s2
        = Some (Inr (Some reply), afterChunk env url page ?start chunkSize st)"
    using ask unfolding s3 .
  have cond: "\<not> \<not> (shouldContinue v \<and> chunkCount v < maxChunks \<and> totalLength v < maxTotalLength)"
    using assms(5,6,7) by simp
  show ?thesis
    unfolding deepReadLoop.simps(2) if_not_P [OF cond]
    unfolding bindM_def [of "bindM getState _"] fetch
    using assms(10) ask' yes
    by (simp add: bindM_def nextVars_def del: processToolCall.simps)
qed

lemma afterChunk_fields:
  "lastToolCall (afterChunk env url page start chunkSize st)
     = Some (callSignature env (deepReadCall url start chunkSize))"
  "readCache (afterChunk env url page start chunkSize st)
     = (readCache st)(cacheKey url start chunkSize \<mapsto> chunkText page start chunkSize)"
  "chatHistory (afterChunk env url page start chunkSize st)
     = chatHistory st @ [Turn Assistant (''Read content from '' @ url @ '':\<newline>''
                                          @ chunkText page start chunkSize)]"
  "toolCallHistory (afterChunk env url page start chunkSize st)
     = toolCallHistory st @ [\<lparr> entry_tool = JString ''read_url'',
          entry_args = arguments (deepReadCall url start chunkSize),
          entry_timestamp = now env (clock st) \<rparr>]"
  "clock (afterChunk env url page start chunkSize st) = Suc (Suc (clock st))"
  by (simp_all add: afterChunk_def afterRead_def admitted_def loopProtection_def readTurn_def
      chunkText_def deepReadCall_def)

lemma chunkText_inner:
  assumes "length page = 10000" and "start + 2000 < 10000"
  shows "chunkText page start 2000 = take 2000 (drop start page) @ ''...''"
    and "length (chunkText page start 2000) = 2003"
  using assms by (simp_all add: chunkText_def)

lemma chunkText_last:
  assumes "length page = 10000"
  shows "chunkText page 8000 2000 = drop 8000 page"
    and "length (chunkText page 8000 2000) = 2000"
  using assms by (simp_all add: chunkText_def)

lemma cacheKey_distinct:
  "cacheKey url 0 2000 \<noteq> cacheKey url 2000 2000"
  "cacheKey url 0 2000 \<noteq> cacheKey url 4000 2000"
  "cacheKey url 0 2000 \<noteq> cacheKey url 6000 2000"
  "cacheKey url 0 2000 \<noteq> cacheKey url 8000 2000"
  "cacheKey url 2000 2000 \<noteq> cacheKey url 4000 2000"
  "cacheKey url 2000 2000 \<noteq> cacheKey url 6000 2000"
  "cacheKey url 2000 2000 \<noteq> cacheKey url 8000 2000"
  "cacheKey url 4000 2000 \<noteq> cacheKey url 6000 2000"
  "cacheKey url 4000 2000 \<noteq> cacheKey url 8000 2000"
  "cacheKey url 6000 2000 \<noteq> cacheKey url 8000 2000"
  by (simp_all add: cacheKey_def show_nat.simps)

lemma nat_fold: "Suc (Suc 0) = 2" "Suc (Suc (Suc 0)) = 3" "Suc (Suc (Suc (Suc 0))) = 4"
  by simp_all

lemma deepRead_five:
  assumes yes: "alwaysYes env" and page: "servesPage env url page" and url: "httpUrl url"
    and len: "length page = 10000" and fresh: "freshFor env url st"
  shows "deepReadLoop (Suc (Suc (Suc (Suc (Suc (Suc n)))))) env (processToolCall (Suc m) env)
           url 5 2000 10000 startVars st
       = Some (Inr \<lparr> allChunks = fiveChunks page, start_offset = 8000, shouldContinue = False,
                     chunkCount = 4, totalLength = 10012 \<rparr>,
               afterFive env url page st)"
proof -
  let ?ptc = "processToolCall (Suc m) env"
  let ?s1 = "afterChunk env url page 0 2000 st"
  let ?s2 = "afterChunk env url page 2000 2000 ?s1"
  let ?s3 = "afterChunk env url page 4000 2000 ?s2"
  let ?s4 = "afterChunk env url page 6000 2000 ?s3"
  let ?s5 = "afterChunk env url page 8000 2000 ?s4"
  let ?c0 = "chunkText page 0 2000"
  let ?c1 = "chunkText page 2000 2000"
  let ?c2 = "chunkText page 4000 2000"
  let ?c3 = "chunkText page 6000 2000"
  let ?c4 = "chunkText page 8000 2000"
  let ?v1 = "\<lparr> allChunks = [?c0], start_offset = 2000, shouldContinue = True,
               chunkCount = 1, totalLength = 2003 \<rparr>"
  let ?v2 = "\<lparr> allChunks = [?c0, ?c1], start_offset = 4000, shouldContinue = True,
               chunkCount = 2, totalLength = 4006 \<rparr>"
  let ?v3 = "\<lparr> allChunks = [?c0, ?c1, ?c2], start_offset = 6000, shouldContinue = True,
               chunkCount = 3, totalLength = 6009 \<rparr>"
  let ?v4 = "\<lparr> allChunks = [?c0, ?c1, ?c2, ?c3], start_offset = 8000, shouldContinue = True,
               chunkCount = 4, totalLength = 8012 \<rparr>"
  let ?v5 = "\<lparr> allChunks = [?c0, ?c1, ?c2, ?c3, ?c4], start_offset = 8000,
               shouldContinue = False, chunkCount = 4, totalLength = 10012 \<rparr>"
  have l0: "length ?c0 = 2003" and l1: "length ?c1 = 2003" and l2: "length ?c2 = 2003"
    and l3: "length ?c3 = 2003" and l4: "length ?c4 = 2000"
    using chunkText_inner(2) [OF len] chunkText_last(2) [OF len] by simp_all
  have ne: "?c0 \<noteq> []" "?c1 \<noteq> []" "?c2 \<noteq> []" "?c3 \<noteq> []" "?c4 \<noteq> []"
    using l0 l1 l2 l3 l4 by auto
  from fresh have cache: "readCache st (cacheKey url 0 2000) = None"
    "readCache st (cacheKey url 2000 2000) = None" "readCache st (cacheKey url 4000 2000) = None"
    "readCache st (cacheKey url 6000 2000) = None" "readCache st (cacheKey url 8000 2000) = None"
    by (simp_all add: freshFor_def)
  from fresh have sigs:
    "callSignature env (deepReadCall url 0 2000) \<noteq> callSignature env (deepReadCall url 2000 2000)"
    "callSignature env (deepReadCall url 2000 2000) \<noteq> callSignature env (deepReadCall url 4000 2000)"
    "callSignature env (deepReadCall url 4000 2000) \<noteq> callSignature env (deepReadCall url 6000 2000)"
    "callSignature env (deepReadCall url 6000 2000) \<noteq> callSignature env (deepReadCall url 8000 2000)"
    by (auto simp add: freshFor_def)
  from fresh have g0: "\<not> (lastToolCall st = Some (callSignature env (deepReadCall url 0 2000))
             \<and> 3 \<le> lastToolCallCount st)"
    by (simp add: freshFor_def)
  have step1: "deepReadLoop (Suc (Suc (Suc (Suc (Suc (Suc n)))))) env ?ptc url 5 2000 10000 startVars st
      = deepReadLoop (Suc (Suc (Suc (Suc (Suc n))))) env ?ptc url 5 2000 10000 ?v1 ?s1"
    using deepReadLoop_step [OF yes page url, of 2000 startVars 5 10000 st "Suc (Suc (Suc (Suc (Suc n))))" m]
      cache g0 ne l0
    by (simp add: startVars_def nextVars_def del: processToolCall.simps deepReadLoop.simps)
  have step2: "deepReadLoop (Suc (Suc (Suc (Suc (Suc n))))) env ?ptc url 5 2000 10000 ?v1 ?s1
      = deepReadLoop (Suc (Suc (Suc (Suc n)))) env ?ptc url 5 2000 10000 ?v2 ?s2"
    using deepReadLoop_step [OF yes page url, of 2000 ?v1 5 10000 ?s1 "Suc (Suc (Suc (Suc n)))" m]
      cache sigs ne l1
    by (simp add: nextVars_def afterChunk_fields cacheKey_distinct cacheKey_distinct [symmetric] nat_fold del: processToolCall.simps deepReadLoop.simps)
  have step3: "deepReadLoop (Suc (Suc (Suc (Suc n)))) env ?ptc url 5 2000 10000 ?v2 ?s2
      = deepReadLoop (Suc (Suc (Suc n))) env ?ptc url 5 2000 10000 ?v3 ?s3"
    using deepReadLoop_step [OF yes page url, of 2000 ?v2 5 10000 ?s2 "Suc (Suc (Suc n))" m]
      cache sigs ne l2
    by (simp add: nextVars_def afterChunk_fields cacheKey_distinct cacheKey_distinct [symmetric] nat_fold del: processToolCall.simps deepReadLoop.simps)
  have step4: "deepReadLoop (Suc (Suc (Suc n))) env ?ptc url 5 2000 10000 ?v3 ?s3
      = deepReadLoop (Suc (Suc n)) env ?ptc url 5 2000 10000 ?v4 ?s4"
    using deepReadLoop_step [OF yes page url, of 2000 ?v3 5 10000 ?s3 "Suc (Suc n)" m]
      cache sigs ne l3
    by (simp add: nextVars_def afterChunk_fields cacheKey_distinct cacheKey_distinct [symmetric] nat_fold del: processToolCall.simps deepReadLoop.simps)
  have step5: "deepReadLoop (Suc (Suc n)) env ?ptc url 5 2000 10000 ?v4 ?s4
      = deepReadLoop (Suc n) env ?ptc url 5 2000 10000 ?v5 ?s5"
    using deepReadLoop_step [OF yes page url, of 2000 ?v4 5 10000 ?s4 "Suc n" m]
      cache sigs ne l4
    by (simp add: nextVars_def afterChunk_fields cacheKey_distinct cacheKey_distinct [symmetric] nat_fold del: processToolCall.simps deepReadLoop.simps)
  have stop: "deepReadLoop (Suc n) env ?ptc url 5 2000 10000 ?v5 ?s5 = Some (Inr ?v5, ?s5)"
    by (simp add: ret_def del: processToolCall.simps)
  have chunks: "[?c0, ?c1, ?c2, ?c3, ?c4] = fiveChunks page"
    using chunkText_inner(1) [OF len] chunkText_last(1) [OF len]
    by (simp add: fiveChunks_def)
  show ?thesis
    unfolding step1 step2 step3 step4 step5 stop afterFive_def chunks [symmetric] ..
qed

lemma refEnv_alwaysYes: "alwaysYes refEnv"
  by (simp add: alwaysYes_def refEnv_def trim_def isWhiteSpace_def toLowerCase_def lowerChar_def)

lemma refEnv_servesPage: "servesPage refEnv url examplePage"
  by (simp add: servesPage_def refEnv_def examplePage_def)

lemma example_httpUrl: "httpUrl ''https://example.com''"
  by (simp add: httpUrl_def)

lemma refEnv_fresh: "freshFor refEnv ''https://example.com'' initialState"
  by (simp add: freshFor_def initialState_def callSignature_def deepReadCall_def refEnv_def
      quote_def escape_char_def show_rat_def show_nat.simps)

lemma six: "(6::nat) = Suc (Suc (Suc (Suc (Suc (Suc 0)))))"
  by simp

lemma six_plus: "6 + n = Suc (Suc (Suc (Suc (Suc (Suc n)))))"
  by simp

text \<open>
  C5, as stated: on a page of 10000 characters with chunks of 2000, at most 5 chunks and a
  budget of 10000 characters, a model that answers "yes" every time, the loop stops
  because the chunk cap is reached, not the length cap. It fails: when the loop stops,
  the chunk counter is 4, below the cap of 5, and the cumulative length is 10012, not
  below the budget. The test after the fifth chunk (line 752) fails on the length and
  clears \<open>shouldContinue\<close>.
\<close>

theorem deepRead_stop_counterexample:
  "map_option fst
     (deepReadLoop 6 refEnv (processToolCall 1 refEnv) ''https://example.com'' 5 2000 10000
        startVars initialState)
     = Some (Inr \<lparr> allChunks = fiveChunks examplePage, start_offset = 8000,
                    shouldContinue = False, chunkCount = 4, totalLength = 10012 \<rparr>)
   \<and> (4::nat) < 5 \<and> \<not> (10012::nat) < 10000"
proof -
  have len: "length examplePage = 10000" by (simp add: examplePage_def)
  note run = deepRead_five [OF refEnv_alwaysYes refEnv_servesPage example_httpUrl len refEnv_fresh,
      of 0 0]
  show ?thesis
    unfolding six One_nat_def run by simp
qed

text \<open>
  C5, amended: in that scenario \<open>deepReadUrl\<close> returns, given fuel for six rounds of its
  loop, exactly five chunks: four of 2003 characters (2000 of the page and the "..." that
  \<open>read_url\<close> appended) and the last 2000 characters of the page. Five reads are logged,
  five turns are appended. The loop ends with \<open>shouldContinue\<close> cleared by the length
  test, the chunk counter at 4 and the cumulative length at 10012.
\<close>

theorem deepRead_five_chunks:
  assumes "alwaysYes env" and "servesPage env url page" and "httpUrl url"
    and "length page = 10000" and "freshFor env url st"
  shows "deepReadUrl (6 + n) env (processToolCall (Suc m) env) url 5 2000 10000 st
           = Some (Inr (fiveChunks page), afterFive env url page st)
       \<and> deepReadLoop (6 + n) env (processToolCall (Suc m) env) url 5 2000 10000 startVars st
           = Some (Inr \<lparr> allChunks = fiveChunks page, start_offset = 8000,
                         shouldContinue = False, chunkCount = 4, totalLength = 10012 \<rparr>,
                   afterFive env url page st)
       \<and> length (fiveChunks page) = 5
       \<and> map length (fiveChunks page) = [2003, 2003, 2003, 2003, 2000]
       \<and> chatHistory (afterFive env url page st)
           = chatHistory st
               @ map (\<lambda>c. Turn Assistant (''Read content from '' @ url @ '':\<newline>'' @ c))
                     (fiveChunks page)
       \<and> length (toolCallHistory (afterFive env url page st)) = length (toolCallHistory st) + 5
       \<and> clock (afterFive env url page st) = clock st + 10"
proof -
  note run = deepRead_five [OF assms, of n m, folded six_plus]
  have a: "deepReadUrl (6 + n) env (processToolCall (Suc m) env) url 5 2000 10000 st
           = Some (Inr (fiveChunks page), afterFive env url page st)"
    unfolding deepReadUrl_def startVars_def [symmetric]
    by (simp add: bindM_def run ret_def del: processToolCall.simps)
  have c: "length (fiveChunks page) = 5"
    by (simp add: fiveChunks_def)
  have d: "map length (fiveChunks page) = [2003, 2003, 2003, 2003, 2000]"
    using assms(4) by (simp add: fiveChunks_def)
  have texts: "[chunkText page 0 2000, chunkText page 2000 2000, chunkText page 4000 2000,
      chunkText page 6000 2000, chunkText page 8000 2000] = fiveChunks page"
    using chunkText_inner(1) [OF assms(4)] chunkText_last(1) [OF assms(4)]
    by (simp add: fiveChunks_def)
  have e: "chatHistory (afterFive env url page st)
           = chatHistory st
               @ map (\<lambda>c. Turn Assistant (''Read content from '' @ url @ '':\<newline>'' @ c))
                     (fiveChunks page)"
    unfolding texts [symmetric] by (simp add: afterFive_def afterChunk_fields)
  have f: "length (toolCallHistory (afterFive env url page st)) = length (toolCallHistory st) + 5"
    by (simp add: afterFive_def afterChunk_fields)
  have g: "clock (afterFive env url page st) = clock st + 10"
    by (simp add: afterFive_def afterChunk_fields)
  from a run c d e f g show ?thesis by blast
qed

theorem deepRead_five_chunks_witness:
  "alwaysYes refEnv \<and> servesPage refEnv ''https://example.com'' examplePage
   \<and> httpUrl ''https://example.com'' \<and> length examplePage = 10000
   \<and> freshFor refEnv ''https://example.com'' initialState
   \<and> deepReadUrl 6 refEnv (processToolCall 1 refEnv) ''https://example.com'' 5 2000 10000
        initialState
      = Some (Inr (fiveChunks examplePage),
              afterFive refEnv ''https://example.com'' examplePage initialState)
   \<and> length (chatHistory (afterFive refEnv ''https://example.com'' examplePage initialState)) = 5"
proof -
  have len: "length examplePage = 10000" by (simp add: examplePage_def)
  note inst = deepRead_five_chunks [OF refEnv_alwaysYes refEnv_servesPage example_httpUrl len
      refEnv_fresh, of 0 0]
  from inst have run: "deepReadUrl 6 refEnv (processToolCall 1 refEnv) ''https://example.com'' 5 2000 10000
        initialState
      = Some (Inr (fiveChunks examplePage),
              afterFive refEnv ''https://example.com'' examplePage initialState)"
    by simp
  from inst have hist: "length (chatHistory (afterFive refEnv ''https://example.com'' examplePage initialState)) = 5"
    by (simp add: initialState_def fiveChunks_def)
  from run hist refEnv_alwaysYes refEnv_servesPage example_httpUrl len refEnv_fresh
  show ?thesis by blast
qed

subsection \<open>The loop protection and the calls of handlers\<close>




lemma guardTrace_kept: "guardKept st st' \<Longrightarrow> guardTrace st st'"
  by (simp add: guardTrace_def guardKept_def)






















































lemma click_signature: "callSignature refEnv clickCall = callSignature refEnv exampleCall"
  by (simp add: callSignature_def clickCall_def exampleCall_def deepReadCall_def)

lemma click_settings:
  "\<not> streaming (settings initialState)" "\<not> enableCoT (settings initialState)"
  by (simp_all add: initialState_def)




subsection \<open>The system turn\<close>

lemma oneSystemFirst_init: "oneSystemFirst (init p st)"
  by (simp add: oneSystemFirst_def init_def)

lemma oneSystemFirst_appendsOnly:
  "oneSystemFirst st \<Longrightarrow> appendsOnly st st' \<Longrightarrow> oneSystemFirst st'"
  unfolding oneSystemFirst_def appendsOnly_def by auto

lemma reachable_oneSystemFirst: "reachable env st \<Longrightarrow> oneSystemFirst st"
proof (induction rule: reachable.induct)
  case (started p st)
  show ?case by (rule oneSystemFirst_init)
next
  case (sent st n r st')
  from keepsD [OF ao_sendMessage sent.hyps(2)] sent.IH show ?case
    by (rule oneSystemFirst_appendsOnly [rotated])
next
  case (tool_called st n c r st')
  from keepsD [OF ao_processToolCall tool_called.hyps(2)] tool_called.IH show ?case
    by (rule oneSystemFirst_appendsOnly [rotated])
next
  case (settings_updated st p)
  then show ?case by (simp add: oneSystemFirst_def updateSettings_def)
next
  case (summarized st n r st')
  from keepsD [OF ao_summarizeSnippets summarized.hyps(2)] summarized.IH show ?case
    by (rule oneSystemFirst_appendsOnly [rotated])
qed

lemma firstExchange_run:
  "sendMessage 1 refEnv (init None initialState) = Some (Inr (), firstExchange)"
  unfolding firstExchange_def
  by (simp add: sendMessage_def refEnv_def init_def initialState_def prog_defs Let_def
      handleOpenAIMessage_def replyContent_def interceptToolCall_def extractToolCall_def
      matchBraces_def finishReply_def)

lemma firstExchange_history:
  "chatHistory firstExchange
     = [Turn System systemPrompt, Turn User ''hello'', Turn Assistant ''Yes, more please.'']"
  unfolding firstExchange_def
  by (simp add: sendMessage_def refEnv_def init_def initialState_def prog_defs Let_def
      handleOpenAIMessage_def replyContent_def interceptToolCall_def extractToolCall_def
      matchBraces_def finishReply_def)

text \<open>
  C9, as stated: in every state reachable through the public operations, \<open>clearChat\<close>
  among them, the conversation holds exactly one system turn, the first. It fails after
  \<open>clearChat\<close>: the conversation is empty, the system turn is gone.
\<close>

theorem system_turn_lost_counterexample:
  "chatHistory (clearChat (init None initialState)) = []
   \<and> \<not> oneSystemFirst (clearChat (init None initialState))"
  by (simp add: clearChat_def oneSystemFirst_def)

text \<open>
  C9, amended: in every state reached from \<open>init\<close> by \<open>sendMessage\<close>, \<open>processToolCall\<close>,
  \<open>updateSettings\<close>, the summarize button or \<open>init\<close> again, the conversation holds
  exactly one system turn, the first. \<open>sendMessage\<close>, \<open>processToolCall\<close> and the
  summarizer only append turns that are not system turns, whenever they return;
  \<open>updateSettings\<close> leaves the conversation as it is; \<open>init\<close> replaces it by the system
  turn alone, and \<open>clearChat\<close> empties it, the system turn included.
\<close>

theorem system_turn_invariant:
  "(reachable env st \<longrightarrow> oneSystemFirst st)
   \<and> (sendMessage n env st = Some (r, st') \<longrightarrow> appendsOnly st st')
   \<and> (processToolCall n env c st = Some (r, st') \<longrightarrow> appendsOnly st st')
   \<and> (summarizeSnippets n env None 1 st = Some (r, st') \<longrightarrow> appendsOnly st st')
   \<and> chatHistory (updateSettings p st) = chatHistory st
   \<and> chatHistory (init q st) = [Turn System systemPrompt]
   \<and> chatHistory (clearChat st) = []"
proof -
  have a: "reachable env st \<longrightarrow> oneSystemFirst st"
    using reachable_oneSystemFirst by blast
  have b: "sendMessage n env st = Some (r, st') \<longrightarrow> appendsOnly st st'"
    using keepsD [OF ao_sendMessage] by blast
  have c: "processToolCall n env c st = Some (r, st') \<longrightarrow> appendsOnly st st'"
    using keepsD [OF ao_processToolCall] by blast
  have d: "summarizeSnippets n env None 1 st = Some (r, st') \<longrightarrow> appendsOnly st st'"
    using keepsD [OF ao_summarizeSnippets] by blast
  have e: "chatHistory (updateSettings p st) = chatHistory st"
    "chatHistory (init q st) = [Turn System systemPrompt]" "chatHistory (clearChat st) = []"
    by (simp_all add: updateSettings_def init_def clearChat_def)
  from a b c d e show ?thesis by blast
qed

theorem system_turn_invariant_witness:
  "reachable refEnv firstExchange
   \<and> oneSystemFirst firstExchange
   \<and> sendMessage 1 refEnv (init None initialState) = Some (Inr (), firstExchange)
   \<and> appendsOnly (init None initialState) firstExchange
   \<and> chatHistory firstExchange
        = [Turn System systemPrompt, Turn User ''hello'', Turn Assistant ''Yes, more please.'']
   \<and> processToolCall 1 refEnv badCall initialState
        = Some (Inr (), (admitted refEnv badCall initialState)
             \<lparr>ui := ui initialState @ [AddMessage ''ai'' (invalidMessage badCall)]\<rparr>)
   \<and> appendsOnly initialState ((admitted refEnv badCall initialState)
             \<lparr>ui := ui initialState @ [AddMessage ''ai'' (invalidMessage badCall)]\<rparr>)"
proof -
  have start: "reachable refEnv (init None initialState)"
    by (rule reachable.started)
  have reach: "reachable refEnv firstExchange"
    by (rule reachable.sent [OF start firstExchange_run])
  have g: "\<not> (lastToolCall initialState = Some (callSignature refEnv badCall)
            \<and> 3 \<le> lastToolCallCount initialState)"
    by (simp add: initialState_def)
  have sk: "skipContinue badCall" by (simp add: badCall_def)
  have tool: "processToolCall 1 refEnv badCall initialState
      = Some (Inr (), (admitted refEnv badCall initialState)
            \<lparr>ui := ui initialState @ [AddMessage ''ai'' (invalidMessage badCall)]\<rparr>)"
    using invalid_admitted [OF badCall_invalid g, of 0] sk by (simp add: whenM_def ret_def)
  from system_turn_invariant [where env = refEnv and st = firstExchange]
    reach firstExchange_run
  have one: "oneSystemFirst firstExchange" by blast
  from system_turn_invariant [where env = refEnv and st = "init None initialState" and n = 1
      and r = "Inr ()" and st' = firstExchange]
    firstExchange_run
  have grows: "appendsOnly (init None initialState) firstExchange" by blast
  from system_turn_invariant [where env = refEnv and st = initialState and n = 1
      and r = "Inr ()" and c = badCall
      and st' = "(admitted refEnv badCall initialState)
            \<lparr>ui := ui initialState @ [AddMessage ''ai'' (invalidMessage badCall)]\<rparr>"]
    tool
  have grows2: "appendsOnly initialState ((admitted refEnv badCall initialState)
             \<lparr>ui := ui initialState @ [AddMessage ''ai'' (invalidMessage badCall)]\<rparr>)"
    by blast
  from reach one firstExchange_run grows firstExchange_history tool grows2
  show ?thesis by blast
qed

end
